theory Spec2Isabelle
  imports Main "HOL-Library.AList"
begin

section \<open>Values of the document store\<close>

text \<open>
  A naive \<open>datetime\<close> as \<open>datetime.utcnow()\<close> produces it and as the driver returns it:
  calendar fields and microseconds, no time zone.
\<close>

record datetime =
  year :: nat
  month :: nat
  day :: nat
  hour :: nat
  minute :: nat
  second :: nat
  microsecond :: nat

text \<open>
  A store identifier is the 96-bit value of \<open>bson.ObjectId\<close>, kept as the number its
  twelve bytes denote.
\<close>

datatype objectid = ObjectId nat

text \<open>
  The Python values a document holds. A \<open>dict\<close> is an association list in insertion
  order whose keys are pairwise distinct (\<open>wf_dict\<close>).
\<close>

datatype pyval =
    VNone
  | VBool bool
  | VInt int
  | VStr string
  | VDateTime datetime
  | VObjectId objectid
  | VList "pyval list"
  | VDict "(string \<times> pyval) list"

type_synonym pydict = "(string \<times> pyval) list"

definition wf_dict :: "pydict \<Rightarrow> bool" where
  "wf_dict d = distinct (map fst d)"

text \<open>Truth value of a Python object, as \<open>not x\<close> and \<open>if x\<close> test it.\<close>

fun truthy :: "pyval \<Rightarrow> bool" where
  "truthy VNone = False"
| "truthy (VBool b) = b"
| "truthy (VInt i) = (i \<noteq> 0)"
| "truthy (VStr s) = (s \<noteq> [])"
| "truthy (VDateTime t) = True"
| "truthy (VObjectId oid) = True"
| "truthy (VList xs) = (xs \<noteq> [])"
| "truthy (VDict d) = (d \<noteq> [])"

text \<open>\<open>d.get(k, default)\<close>\<close>

definition dict_get :: "pydict \<Rightarrow> string \<Rightarrow> pyval \<Rightarrow> pyval" where
  "dict_get d k dflt = (case map_of d k of None \<Rightarrow> dflt | Some v \<Rightarrow> v)"

subsection \<open>Text forms: \<open>datetime.isoformat()\<close> and \<open>str(ObjectId)\<close>\<close>

definition digit_char :: "nat \<Rightarrow> char" where
  "digit_char n = ''0123456789abcdef'' ! (n mod 16)"

text \<open>The \<open>k\<close> lowest digits of \<open>n\<close> in base \<open>b\<close>, most significant first, zero padded.\<close>

fun digits :: "nat \<Rightarrow> nat \<Rightarrow> nat \<Rightarrow> string" where
  "digits b 0 n = []"
| "digits b (Suc k) n = digits b k (n div b) @ [digit_char (n mod b)]"

text \<open>
  \<open>YYYY-MM-DDTHH:MM:SS\<close>, followed by \<open>.ffffff\<close> when the microseconds are not zero.
\<close>

definition isoformat :: "datetime \<Rightarrow> string" where
  "isoformat t =
     digits 10 4 (year t) @ ''-'' @ digits 10 2 (month t) @ ''-'' @ digits 10 2 (day t) @ ''T'' @
     digits 10 2 (hour t) @ '':'' @ digits 10 2 (minute t) @ '':'' @ digits 10 2 (second t) @
     (if microsecond t = 0 then [] else ''.'' @ digits 10 6 (microsecond t))"

text \<open>\<open>str(oid)\<close>: 24 lower-case hexadecimal digits.\<close>

fun str_oid :: "objectid \<Rightarrow> string" where
  "str_oid (ObjectId n) = digits 16 24 n"

definition hex_value :: "char \<Rightarrow> nat option" where
  "hex_value c =
     (let n = (of_char c :: nat) in
      if 48 \<le> n \<and> n \<le> 57 then Some (n - 48)
      else if 97 \<le> n \<and> n \<le> 102 then Some (n - 87)
      else if 65 \<le> n \<and> n \<le> 70 then Some (n - 55)
      else None)"

fun hex_number :: "nat \<Rightarrow> string \<Rightarrow> nat option" where
  "hex_number acc [] = Some acc"
| "hex_number acc (c # cs) =
     (case hex_value c of None \<Rightarrow> None | Some v \<Rightarrow> hex_number (16 * acc + v) cs)"

text \<open>
  \<open>ObjectId(task_id)\<close> for a string argument, as the driver documents it: a string of
  24 hexadecimal digits, in either case, is accepted; anything else raises \<open>InvalidId\<close>
  (here \<open>None\<close>).
\<close>

definition parse_oid :: "string \<Rightarrow> objectid option" where
  "parse_oid s =
     (if length s = 24 then map_option ObjectId (hex_number 0 s) else None)"

section \<open>Serialization of a stored document\<close>

text \<open>What the loop of \<open>serialize_doc\<close> writes for one value.\<close>

fun iso_value :: "pyval \<Rightarrow> pyval" where
  "iso_value (VDateTime t) = VStr (isoformat t)"
| "iso_value v = v"

text \<open>
  One iteration of \<open>for k, v in list(doc.items())\<close>: the pair comes from the snapshot,
  the write goes to the working dictionary.
\<close>

fun convert_item :: "string \<times> pyval \<Rightarrow> pydict \<Rightarrow> pydict" where
  "convert_item (k, VDateTime t) doc = AList.update k (VStr (isoformat t)) doc"
| "convert_item (k, v) doc = doc"

text \<open>The body of \<open>serialize_doc\<close> after the copy \<open>doc = {**doc}\<close>.\<close>

definition rewrite_id :: "pydict \<Rightarrow> pydict" where
  "rewrite_id doc =
     (case map_of doc ''_id'' of
        Some (VObjectId oid) \<Rightarrow> AList.delete ''_id'' (AList.update ''id'' (VStr (str_oid oid)) doc)
      | _ \<Rightarrow> doc)"

definition convert_datetimes :: "pydict \<Rightarrow> pydict" where
  "convert_datetimes doc = fold convert_item doc doc"

text \<open>
  \<open>serialize_doc\<close> on values: \<open>None\<close> and the empty dictionary are returned as they
  are.
\<close>

definition serialize_doc :: "pydict option \<Rightarrow> pydict option" where
  "serialize_doc doc =
     (case doc of
        None \<Rightarrow> None
      | Some d \<Rightarrow> if d = [] then Some d else Some (convert_datetimes (rewrite_id d)))"

subsection \<open>The same function on objects\<close>

text \<open>
  Python dictionaries are objects: the argument of \<open>serialize_doc\<close> is a reference and
  its writes go to whatever that reference points at. The heap holds the dictionary
  objects, a reference is an index into it, and a new object takes the next free index.
\<close>

type_synonym heap = "pydict list"

text \<open>\<open>doc[k] = v\<close> and \<open>del doc[k]\<close> on the object at address \<open>a\<close>.\<close>

definition heap_set :: "nat \<Rightarrow> string \<Rightarrow> pyval \<Rightarrow> heap \<Rightarrow> heap" where
  "heap_set a k v h = h[a := AList.update k v (h ! a)]"

definition heap_del :: "nat \<Rightarrow> string \<Rightarrow> heap \<Rightarrow> heap" where
  "heap_del a k h = h[a := AList.delete k (h ! a)]"

fun convert_item_at :: "nat \<Rightarrow> string \<times> pyval \<Rightarrow> heap \<Rightarrow> heap" where
  "convert_item_at a (k, VDateTime t) h = heap_set a k (VStr (isoformat t)) h"
| "convert_item_at a (k, v) h = h"

text \<open>
  Statement by statement: the test \<open>not doc\<close>, the copy \<open>{**doc}\<close> into a new object
  to which the name \<open>doc\<close> is rebound, the identifier, the loop over a snapshot of the
  items. The result is the reference returned and the heap left behind.
\<close>

definition serialize_doc_obj :: "nat option \<Rightarrow> heap \<Rightarrow> nat option \<times> heap" where
  "serialize_doc_obj doc h =
     (case doc of
        None \<Rightarrow> (None, h)
      | Some a \<Rightarrow>
          if h ! a = [] then (Some a, h)
          else
            let b = length h;
                h1 = h @ [h ! a];
                h2 = (case map_of (h1 ! b) ''_id'' of
                        Some (VObjectId oid) \<Rightarrow>
                          heap_del b ''_id'' (heap_set b ''id'' (VStr (str_oid oid)) h1)
                      | _ \<Rightarrow> h1);
                h3 = fold (convert_item_at b) (h2 ! b) h2
            in (Some b, h3))"

section \<open>The document store\<close>

text \<open>
  The task collection of a connected, working database: its documents in store order,
  the identifier the store assigns next, and the calls made to the driver so far (a
  record kept beside the data, so that "no store call" can be said).
\<close>

datatype store_call =
    FindOne objectid
  | UpdateOne objectid pydict
  | DeleteOne objectid
  | InsertOne pydict
  | ListCollectionNames

record store =
  docs :: "pydict list"
  next_oid :: nat
  calls :: "store_call list"

text \<open>The filter \<open>{"_id": oid}\<close>.\<close>

definition has_id :: "objectid \<Rightarrow> pydict \<Rightarrow> bool" where
  "has_id oid d = (map_of d ''_id'' = Some (VObjectId oid))"

text \<open>\<open>{"$set": fields}\<close> applied to one document.\<close>

fun set_field :: "string \<times> pyval \<Rightarrow> pydict \<Rightarrow> pydict" where
  "set_field (k, v) d = AList.update k v d"

definition set_fields :: "pydict \<Rightarrow> pydict \<Rightarrow> pydict" where
  "set_fields upd d = fold set_field upd d"

text \<open>The store's constraint on a collection: no two documents share an \<open>_id\<close>.\<close>

definition unique_ids :: "pydict list \<Rightarrow> bool" where
  "unique_ids ds = distinct (map (\<lambda>d. map_of d ''_id'') ds)"

fun update_first :: "('a \<Rightarrow> bool) \<Rightarrow> ('a \<Rightarrow> 'a) \<Rightarrow> 'a list \<Rightarrow> 'a list" where
  "update_first P f [] = []"
| "update_first P f (x # xs) = (if P x then f x # xs else x # update_first P f xs)"

fun delete_first :: "('a \<Rightarrow> bool) \<Rightarrow> 'a list \<Rightarrow> 'a list" where
  "delete_first P [] = []"
| "delete_first P (x # xs) = (if P x then xs else x # delete_first P xs)"

definition log_call :: "store_call \<Rightarrow> store \<Rightarrow> store" where
  "log_call c s = s\<lparr>calls := calls s @ [c]\<rparr>"

text \<open>
  The driver calls the handlers make on \<open>db[TASK_COLLECTION]\<close>. Each acts on the first
  document the filter matches; \<open>update_one\<close> returns \<open>matched_count\<close> and
  \<open>delete_one\<close> returns \<open>deleted_count\<close>.
\<close>

definition find_one :: "objectid \<Rightarrow> store \<Rightarrow> pydict option \<times> store" where
  "find_one oid s = (find (has_id oid) (docs s), log_call (FindOne oid) s)"

definition update_one :: "objectid \<Rightarrow> pydict \<Rightarrow> store \<Rightarrow> nat \<times> store" where
  "update_one oid upd s =
     (if find (has_id oid) (docs s) = None then 0 else 1,
      log_call (UpdateOne oid upd)
        (s\<lparr>docs := update_first (has_id oid) (set_fields upd) (docs s)\<rparr>))"

definition delete_one :: "objectid \<Rightarrow> store \<Rightarrow> nat \<times> store" where
  "delete_one oid s =
     (if find (has_id oid) (docs s) = None then 0 else 1,
      log_call (DeleteOne oid) (s\<lparr>docs := delete_first (has_id oid) (docs s)\<rparr>))"

section \<open>Request and response models\<close>

text \<open>
  What a handler can end with instead of a result: an \<open>HTTPException\<close> with its status
  code and detail, or an exception nobody catches (the framework answers 500).
\<close>

datatype error = HTTPException nat string | Unhandled string

record TaskCreate =
  title :: string
  "notes" :: "string option"
  due_at :: "datetime option"

definition TaskCreate_valid :: "TaskCreate \<Rightarrow> bool" where
  "TaskCreate_valid p =
     (1 \<le> length (TaskCreate.title p) \<and> length (TaskCreate.title p) \<le> 200 \<and>
      (case TaskCreate.notes p of None \<Rightarrow> True | Some n \<Rightarrow> length n \<le> 2000))"

record TaskUpdate =
  title :: "string option"
  "notes" :: "string option"
  due_at :: "datetime option"
  completed :: "bool option"

definition TaskUpdate_valid :: "TaskUpdate \<Rightarrow> bool" where
  "TaskUpdate_valid p =
     ((case TaskUpdate.title p of None \<Rightarrow> True | Some t \<Rightarrow> 1 \<le> length t \<and> length t \<le> 200) \<and>
      (case TaskUpdate.notes p of None \<Rightarrow> True | Some n \<Rightarrow> length n \<le> 2000))"

text \<open>An optional field as a Python value: \<open>None\<close> when it is not set.\<close>

definition opt :: "('a \<Rightarrow> pyval) \<Rightarrow> 'a option \<Rightarrow> pyval" where
  "opt f x = (case x of None \<Rightarrow> VNone | Some v \<Rightarrow> f v)"

text \<open>\<open>payload.model_dump()\<close> of a \<open>TaskUpdate\<close>: every declared field, in order.\<close>

definition model_dump :: "TaskUpdate \<Rightarrow> pydict" where
  "model_dump p =
     [(''title'', opt VStr (TaskUpdate.title p)),
      (''notes'', opt VStr (TaskUpdate.notes p)),
      (''due_at'', opt VDateTime (TaskUpdate.due_at p)),
      (''completed'', opt VBool (TaskUpdate.completed p))]"

text \<open>
  Modelled from the spec: \<open>Task\<close> of \<open>schemas.py\<close>, which is not among the sources. The
  data model gives it a title, optional notes, an optional due time and the completed
  flag.
\<close>

record Task =
  title :: string
  "notes" :: "string option"
  due_at :: "datetime option"
  completed :: bool

text \<open>
  Modelled from the spec: \<open>TaskOut\<close> of \<open>schemas.py\<close>, which is not among the sources. The
  output shape is \<open>{id: string, title: string, notes: string|null, due_at: ISO8601|null,
  completed: bool, created_at?: ISO8601, updated_at?: ISO8601}\<close>.
\<close>

record TaskOut =
  id :: string
  title :: string
  "notes" :: "string option"
  due_at :: "string option"
  completed :: bool
  created_at :: "string option"
  updated_at :: "string option"

text \<open>A field that must hold a string, and one that holds a string, null or nothing.\<close>

definition required_str :: "pydict \<Rightarrow> string \<Rightarrow> string option" where
  "required_str d k = (case map_of d k of Some (VStr s) \<Rightarrow> Some s | _ \<Rightarrow> None)"

definition optional_str :: "pydict \<Rightarrow> string \<Rightarrow> string option option" where
  "optional_str d k =
     (case map_of d k of
        None \<Rightarrow> Some None
      | Some VNone \<Rightarrow> Some None
      | Some (VStr s) \<Rightarrow> Some (Some s)
      | Some _ \<Rightarrow> None)"

definition required_bool :: "pydict \<Rightarrow> string \<Rightarrow> bool option" where
  "required_bool d k = (case map_of d k of Some (VBool b) \<Rightarrow> Some b | _ \<Rightarrow> None)"

text \<open>
  Modelled from the spec: the construction \<open>TaskOut(**d)\<close>. A mapping that does not fit
  the output shape is a validation error, which no handler catches; \<open>**None\<close> is a type
  error. Keys outside the shape are ignored.
\<close>

definition TaskOut_of :: "pydict option \<Rightarrow> error + TaskOut" where
  "TaskOut_of x =
     (case x of
        None \<Rightarrow> Inl (Unhandled ''TypeError'')
      | Some d \<Rightarrow>
          (case (required_str d ''id'', required_str d ''title'', optional_str d ''notes'',
                 optional_str d ''due_at'', required_bool d ''completed'',
                 optional_str d ''created_at'', optional_str d ''updated_at'') of
             (Some i, Some t, Some n, Some du, Some c, Some cr, Some up) \<Rightarrow>
               Inr \<lparr>TaskOut.id = i, TaskOut.title = t, TaskOut.notes = n, TaskOut.due_at = du,
                    TaskOut.completed = c, TaskOut.created_at = cr, TaskOut.updated_at = up\<rparr>
           | _ \<Rightarrow> Inl (Unhandled ''ValidationError'')))"

section \<open>The task handlers\<close>

text \<open>
  Modelled from the spec: \<open>create_document\<close> of \<open>database.py\<close>, which is not among the
  sources. The store adapter exposes \<open>insert(collection, document) -> id\<close>; the store
  assigns the identifier, unique among those it has issued, and the timestamps
  \<open>created_at\<close> and \<open>updated_at\<close>; the identifier comes back as a string.
\<close>

definition create_document :: "datetime \<Rightarrow> Task \<Rightarrow> store \<Rightarrow> string \<times> store" where
  "create_document now data s =
     (let oid = ObjectId (next_oid s);
          doc = [(''_id'', VObjectId oid),
                 (''title'', VStr (Task.title data)),
                 (''notes'', opt VStr (Task.notes data)),
                 (''due_at'', opt VDateTime (Task.due_at data)),
                 (''completed'', VBool (Task.completed data)),
                 (''created_at'', VDateTime now),
                 (''updated_at'', VDateTime now)]
      in (str_oid oid,
          log_call (InsertOne doc) (s\<lparr>docs := docs s @ [doc], next_oid := Suc (next_oid s)\<rparr>)))"

text \<open>
  Every identifier in the collection is one the store has issued: an \<open>ObjectId\<close> below
  the next one.
\<close>

definition issued_id :: "nat \<Rightarrow> pydict \<Rightarrow> bool" where
  "issued_id next d =
     (case map_of d ''_id'' of Some (VObjectId (ObjectId n)) \<Rightarrow> n < next | _ \<Rightarrow> False)"

definition ids_issued :: "store \<Rightarrow> bool" where
  "ids_issued s = list_all (issued_id (next_oid s)) (docs s)"

text \<open>
  \<open>POST /api/tasks\<close>. The argument \<open>now\<close> of a handler is what the clock reads during
  the request. \<open>ObjectId(_id)\<close> (here on \<open>inserted_id\<close>) raises on a malformed string and nothing catches it.
\<close>

definition create_task :: "datetime \<Rightarrow> TaskCreate \<Rightarrow> store \<Rightarrow> (error + TaskOut) \<times> store" where
  "create_task now payload s =
     (let data = \<lparr>Task.title = TaskCreate.title payload, Task.notes = TaskCreate.notes payload,
                  Task.due_at = TaskCreate.due_at payload, Task.completed = False\<rparr>;
          (inserted_id, s1) = create_document now data s
      in case parse_oid inserted_id of
           None \<Rightarrow> (Inl (Unhandled ''InvalidId''), s1)
         | Some oid \<Rightarrow>
             let (doc, s2) = find_one oid s1
             in (TaskOut_of (serialize_doc doc), s2))"

text \<open>The document \<open>create_task\<close> has the store insert.\<close>

definition new_doc :: "datetime \<Rightarrow> TaskCreate \<Rightarrow> store \<Rightarrow> pydict" where
  "new_doc now payload s =
     [(''_id'', VObjectId (ObjectId (next_oid s))),
      (''title'', VStr (TaskCreate.title payload)),
      (''notes'', opt VStr (TaskCreate.notes payload)),
      (''due_at'', opt VDateTime (TaskCreate.due_at payload)),
      (''completed'', VBool False),
      (''created_at'', VDateTime now),
      (''updated_at'', VDateTime now)]"

text \<open>\<open>not doc\<close> for the result of \<open>find_one\<close>: \<open>None\<close> or an empty dictionary.\<close>

definition falsy_doc :: "pydict option \<Rightarrow> bool" where
  "falsy_doc doc = (case doc of None \<Rightarrow> True | Some d \<Rightarrow> d = [])"

text \<open>\<open>PATCH /api/tasks/{task_id}/toggle\<close>\<close>

definition toggle_task :: "datetime \<Rightarrow> string \<Rightarrow> store \<Rightarrow> (error + TaskOut) \<times> store" where
  "toggle_task now task_id s =
     (case parse_oid task_id of
        None \<Rightarrow> (Inl (HTTPException 400 ''Invalid task id''), s)
      | Some oid \<Rightarrow>
          let (doc, s1) = find_one oid s
          in if falsy_doc doc then (Inl (HTTPException 404 ''Task not found''), s1)
             else
               let new_completed = (\<not> truthy (dict_get (case doc of Some d \<Rightarrow> d | None \<Rightarrow> [])
                                                  ''completed'' (VBool False)));
                   (res, s2) = update_one oid [(''completed'', VBool new_completed),
                                               (''updated_at'', VDateTime now)] s1;
                   (updated, s3) = find_one oid s2
               in (TaskOut_of (serialize_doc updated), s3))"

text \<open>The update set of a toggle for the document \<open>find_one\<close> returned.\<close>

definition toggle_set :: "datetime \<Rightarrow> pydict \<Rightarrow> pydict" where
  "toggle_set now d =
     [(''completed'', VBool (\<not> truthy (dict_get d ''completed'' (VBool False)))),
      (''updated_at'', VDateTime now)]"

text \<open>
  \<open>PUT /api/tasks/{task_id}\<close>. The dictionary comprehension keeps the items whose value
  is not \<open>None\<close>.
\<close>

definition update_fields :: "TaskUpdate \<Rightarrow> pydict" where
  "update_fields payload = filter (\<lambda>(k, v). v \<noteq> VNone) (model_dump payload)"

text \<open>The update set sent to the store: the fields kept, and \<open>updated_at\<close>.\<close>

definition update_set :: "datetime \<Rightarrow> TaskUpdate \<Rightarrow> pydict" where
  "update_set now p = AList.update ''updated_at'' (VDateTime now) (update_fields p)"

definition update_task ::
  "datetime \<Rightarrow> string \<Rightarrow> TaskUpdate \<Rightarrow> store \<Rightarrow> (error + TaskOut) \<times> store" where
  "update_task now task_id payload s =
     (case parse_oid task_id of
        None \<Rightarrow> (Inl (HTTPException 400 ''Invalid task id''), s)
      | Some oid \<Rightarrow>
          let update_data = update_fields payload
          in if update_data = [] then (Inl (HTTPException 400 ''No fields to update''), s)
             else
               let update_data = AList.update ''updated_at'' (VDateTime now) update_data;
                   (matched_count, s1) = update_one oid update_data s
               in if matched_count = 0 then (Inl (HTTPException 404 ''Task not found''), s1)
                  else
                    let (updated, s2) = find_one oid s1
                    in (TaskOut_of (serialize_doc updated), s2))"

text \<open>\<open>DELETE /api/tasks/{task_id}\<close>\<close>

definition delete_task :: "string \<Rightarrow> store \<Rightarrow> (error + pydict) \<times> store" where
  "delete_task task_id s =
     (case parse_oid task_id of
        None \<Rightarrow> (Inl (HTTPException 400 ''Invalid task id''), s)
      | Some oid \<Rightarrow>
          let (deleted_count, s1) = delete_one oid s
          in if deleted_count = 0 then (Inl (HTTPException 404 ''Task not found''), s1)
             else (Inr [(''success'', VBool True)], s1))"

section \<open>The state of the task collection\<close>

text \<open>
  What the data model says of a collection that only these handlers write: identifiers
  come from the store and are not shared, and \<open>completed\<close> is always present and a
  boolean.
\<close>

definition completed_is_bool :: "pydict \<Rightarrow> bool" where
  "completed_is_bool d = (case map_of d ''completed'' of Some (VBool b) \<Rightarrow> True | _ \<Rightarrow> False)"

definition store_ok :: "store \<Rightarrow> bool" where
  "store_ok s = (ids_issued s \<and> unique_ids (docs s) \<and> list_all completed_is_bool (docs s))"

definition empty_store :: store where
  "empty_store = \<lparr>docs = [], next_oid = 0, calls = []\<rparr>"

section \<open>Diagnostics\<close>

text \<open>The marks that open the status texts, as their UTF-8 bytes.\<close>

definition check_mark :: string where
  "check_mark = [CHR 0xE2, CHR 0x9C, CHR 0x85]"

definition cross_mark :: string where
  "cross_mark = [CHR 0xE2, CHR 0x9D, CHR 0x8C]"

definition warning_sign :: string where
  "warning_sign = [CHR 0xE2, CHR 0x9A, CHR 0xA0, CHR 0xEF, CHR 0xB8, CHR 0x8F]"

text \<open>
  The global \<open>db\<close> is \<open>None\<close> or a database object. What the probe asks of the object:
  its attribute \<open>name\<close>, which may be missing, hold a text, or raise when it is read;
  and \<open>list_collection_names()\<close>, which returns the names or raises. An exception is
  kept as its text \<open>str(e)\<close>.
\<close>

datatype attribute = Missing | Holds string | Raises string

record database =
  name :: attribute
  listing :: "string + string list"

text \<open>\<open>db.name if hasattr(db, 'name') else "... Connected"\<close>; \<open>Inl\<close> is an exception.\<close>

definition database_name_of :: "database \<Rightarrow> string + string" where
  "database_name_of d =
     (case name d of
        Missing \<Rightarrow> Inr (check_mark @ '' Connected'')
      | Holds n \<Rightarrow> Inr n
      | Raises e \<Rightarrow> Inl e)"

definition list_collection_names :: "database \<Rightarrow> store \<Rightarrow> (string + string list) \<times> store" where
  "list_collection_names d s = (listing d, log_call ListCollectionNames s)"

definition initial_response :: pydict where
  "initial_response =
     [(''backend'', VStr (check_mark @ '' Running'')),
      (''database'', VStr (cross_mark @ '' Not Available'')),
      (''database_url'', VNone),
      (''database_name'', VNone),
      (''connection_status'', VStr ''Not Connected''),
      (''collections'', VList [])]"

text \<open>
  The body of the outer \<open>try\<close>, with the inner \<open>try\<close> and its handler. It yields the
  exception that left it, if any, and the response dictionary with the writes made up to
  that point.
\<close>

definition try_body :: "database option \<Rightarrow> pydict \<Rightarrow> store \<Rightarrow> string option \<times> pydict \<times> store" where
  "try_body db response s =
     (case db of
        None \<Rightarrow>
          (None,
           AList.update ''database'' (VStr (warning_sign @ ''  Available but not initialized''))
             response,
           s)
      | Some d \<Rightarrow>
          let r1 = AList.update ''database'' (VStr (check_mark @ '' Available'')) response;
              r2 = AList.update ''database_url'' (VStr (check_mark @ '' Configured'')) r1
          in case database_name_of d of
               Inl e \<Rightarrow> (Some e, r2, s)
             | Inr n \<Rightarrow>
                 let r3 = AList.update ''database_name'' (VStr n) r2;
                     r4 = AList.update ''connection_status'' (VStr ''Connected'') r3;
                     (res, s1) = list_collection_names d s
                 in case res of
                      Inr collections \<Rightarrow>
                        (None,
                         AList.update ''database'' (VStr (check_mark @ '' Connected & Working''))
                           (AList.update ''collections'' (VList (map VStr (take 10 collections)))
                              r4),
                         s1)
                    | Inl e \<Rightarrow>
                        (None,
                         AList.update ''database''
                           (VStr (warning_sign @ ''  Connected but Error: '' @ take 50 e)) r4,
                         s1))"

text \<open>\<open>os.getenv(k)\<close> tested as a condition: set and not empty.\<close>

definition env_set :: "(string \<Rightarrow> string option) \<Rightarrow> string \<Rightarrow> bool" where
  "env_set getenv k = (case getenv k of None \<Rightarrow> False | Some v \<Rightarrow> v \<noteq> [])"

definition set_or_not :: "bool \<Rightarrow> pyval" where
  "set_or_not b = VStr (if b then check_mark @ '' Set'' else cross_mark @ '' Not Set'')"

text \<open>
  \<open>GET /test\<close>: the outer handler, then the environment variables. A result \<open>Inl\<close>
  would be an exception reaching the caller.
\<close>

definition test_database ::
  "(string \<Rightarrow> string option) \<Rightarrow> database option \<Rightarrow> store \<Rightarrow> (error + pydict) \<times> store" where
  "test_database getenv db s =
     (let (raised, r, s1) = try_body db initial_response s;
          r1 = (case raised of
                  None \<Rightarrow> r
                | Some e \<Rightarrow> AList.update ''database'' (VStr (cross_mark @ '' Error: '' @ take 50 e)) r);
          r2 = AList.update ''database_url'' (set_or_not (env_set getenv ''DATABASE_URL'')) r1;
          r3 = AList.update ''database_name'' (set_or_not (env_set getenv ''DATABASE_NAME'')) r2
      in (Inr r3, s1))"

section \<open>Example data\<close>

definition example_time :: datetime where
  "example_time = \<lparr>year = 2024, month = 3, day = 9, hour = 7, minute = 5, second = 0, microsecond = 0\<rparr>"

definition example_doc :: pydict where
  "example_doc = [(''_id'', VObjectId (ObjectId 255)), (''title'', VStr ''Buy milk''),
                  (''completed'', VBool False), (''updated_at'', VDateTime example_time)]"

definition done_doc :: pydict where
  "done_doc = [(''_id'', VObjectId (ObjectId 254)), (''title'', VStr ''Call home''),
               (''notes'', VStr ''after six''), (''completed'', VBool True),
               (''updated_at'', VDateTime example_time)]"

definition example_store :: store where
  "example_store = \<lparr>docs = [done_doc, example_doc], next_oid = 256, calls = []\<rparr>"

definition later_time :: datetime where
  "later_time = \<lparr>year = 2024, month = 3, day = 9, hour = 8, minute = 30, second = 12,
                  microsecond = 250000\<rparr>"

definition example_update :: TaskUpdate where
  "example_update = \<lparr>TaskUpdate.title = Some ''Buy oat milk'', TaskUpdate.notes = None,
                      TaskUpdate.due_at = None, TaskUpdate.completed = Some True\<rparr>"

definition falsy_update :: TaskUpdate where
  "falsy_update = \<lparr>TaskUpdate.title = None, TaskUpdate.notes = Some [],
                    TaskUpdate.due_at = None, TaskUpdate.completed = Some False\<rparr>"

definition empty_update :: TaskUpdate where
  "empty_update = \<lparr>TaskUpdate.title = None, TaskUpdate.notes = None,
                    TaskUpdate.due_at = None, TaskUpdate.completed = None\<rparr>"

definition example_create :: TaskCreate where
  "example_create = \<lparr>TaskCreate.title = ''Buy milk'', TaskCreate.notes = None,
                      TaskCreate.due_at = None\<rparr>"

definition many_names :: "string list" where
  "many_names = [''task'', ''a'', ''b'', ''c'', ''d'', ''e'', ''f'', ''g'', ''h'', ''i'', ''j'', ''k'']"

definition healthy_db :: database where
  "healthy_db = \<lparr>name = Holds ''todo'', listing = Inr many_names\<rparr>"

definition failing_db :: database where
  "failing_db = \<lparr>name = Holds ''todo'', listing = Inl ''connection refused''\<rparr>"

definition no_env :: "string \<Rightarrow> string option" where
  "no_env k = None"

section \<open>Facts about the example data\<close>

lemma example_doc_facts:
  "wf_dict example_doc" "example_doc \<noteq> []"
  "map_of example_doc ''_id'' = Some (VObjectId (ObjectId 255))"
  "map_of example_doc ''title'' = Some (VStr ''Buy milk'')"
  "map_of example_doc ''completed'' = Some (VBool False)"
  "map_of example_doc ''updated_at'' = Some (VDateTime example_time)"
  by (simp_all add: wf_dict_def example_doc_def)

lemma example_texts:
  "str_oid (ObjectId 255) = ''0000000000000000000000ff''"
  "isoformat example_time = ''2024-03-09T07:05:00''"
  by code_simp+

lemma example_ids:
  "parse_oid ''0000000000000000000000ff'' = Some (ObjectId 255)"
  "parse_oid ''000000000000000000000002'' = Some (ObjectId 2)"
  "parse_oid ''0000000000000000000000fe'' = Some (ObjectId 254)"
  "parse_oid ''bad-id'' = None"
  by code_simp+

lemma done_doc_facts:
  "wf_dict done_doc" "done_doc \<noteq> []"
  "map_of done_doc ''_id'' = Some (VObjectId (ObjectId 254))"
  "map_of done_doc ''title'' = Some (VStr ''Call home'')"
  "map_of done_doc ''notes'' = Some (VStr ''after six'')"
  "map_of done_doc ''completed'' = Some (VBool True)"
  by (simp_all add: wf_dict_def done_doc_def)

lemma example_store_find:
  "find (has_id (ObjectId 255)) (docs example_store) = Some example_doc"
  "find (has_id (ObjectId 254)) (docs example_store) = Some done_doc"
  "find (has_id (ObjectId 2)) (docs example_store) = None"
  "unique_ids (docs example_store)"
  by (simp_all add: example_store_def has_id_def unique_ids_def example_doc_facts done_doc_facts)

lemma example_create_facts:
  "TaskCreate_valid example_create" "ids_issued example_store"
  "next_oid example_store < 2 ^ 96" "next_oid example_store = 256"
  by (simp_all add: TaskCreate_valid_def example_create_def ids_issued_def issued_id_def
        example_store_def
        example_doc_facts done_doc_facts)

lemma example_new_id: "str_oid (ObjectId 256) = ''000000000000000000000100''"
  by code_simp


section \<open>Properties of the serialization\<close>

lemma convert_item_map_of:
  "map_of (convert_item (k', v) d) k = (if k = k' then (case v of VDateTime t \<Rightarrow> Some (VStr (isoformat t)) | _ \<Rightarrow> map_of d k) else map_of d k)"
  by (cases v) (simp_all add: update_conv')

lemma fold_convert_item_map_of:
  "distinct (map fst xs) \<Longrightarrow>
   map_of (fold convert_item xs d) k =
     (case map_of xs k of Some (VDateTime t) \<Rightarrow> Some (VStr (isoformat t)) | _ \<Rightarrow> map_of d k)"
proof (induction xs arbitrary: d)
  case Nil
  then show ?case by simp
next
  case (Cons x xs)
  obtain k' v where x: "x = (k', v)" by (cases x)
  from Cons.prems have dx: "distinct (map fst xs)" and nk: "k' \<notin> fst ` set xs" by (auto simp: x)
  have none: "k = k' \<Longrightarrow> map_of xs k = None" using nk by (simp add: map_of_eq_None_iff)
  show ?case
    using Cons.IH[OF dx, of "convert_item (k', v) d"] none
    by (cases v) (auto simp: x update_conv' split: option.splits pyval.splits)
qed

lemma convert_datetimes_map_of:
  "wf_dict d \<Longrightarrow> map_of (convert_datetimes d) k = map_option iso_value (map_of d k)"
  unfolding convert_datetimes_def wf_dict_def
  by (simp add: fold_convert_item_map_of split: option.splits pyval.splits)

lemma convert_item_keys: "wf_dict d \<Longrightarrow> wf_dict (convert_item x d)"
  unfolding wf_dict_def by (cases x, cases "snd x") (auto simp: distinct_update)

lemma fold_convert_item_wf: "wf_dict d \<Longrightarrow> wf_dict (fold convert_item xs d)"
  by (induction xs arbitrary: d) (simp_all add: convert_item_keys)

lemma rewrite_id_wf: "wf_dict d \<Longrightarrow> wf_dict (rewrite_id d)"
  unfolding wf_dict_def rewrite_id_def
  by (auto simp: distinct_update distinct_delete split: option.splits pyval.splits)

lemma convert_item_at_length: "length (convert_item_at b x h) = length h"
  by (cases x, cases "snd x") (auto simp: heap_set_def)

lemma fold_convert_item_at_length: "length (fold (convert_item_at b) xs h) = length h"
  by (induction xs arbitrary: h) (simp_all add: convert_item_at_length)

lemma convert_item_at_other: "i \<noteq> b \<Longrightarrow> convert_item_at b x h ! i = h ! i"
  by (cases x, cases "snd x") (auto simp: heap_set_def)

lemma fold_convert_item_at_other: "i \<noteq> b \<Longrightarrow> fold (convert_item_at b) xs h ! i = h ! i"
  by (induction xs arbitrary: h) (simp_all add: convert_item_at_other)

lemma convert_item_at_same: "b < length h \<Longrightarrow> convert_item_at b x h ! b = convert_item x (h ! b)"
  by (cases x, cases "snd x") (auto simp: heap_set_def)

lemma fold_convert_item_at_same:
  "b < length h \<Longrightarrow> fold (convert_item_at b) xs h ! b = fold convert_item xs (h ! b)"
  by (induction xs arbitrary: h) (simp_all add: convert_item_at_same convert_item_at_length)

lemma serialize_doc_obj_refines:
  assumes "a < length h" and "h ! a \<noteq> []"
  shows "serialize_doc_obj (Some a) h = (Some (length h), h @ [convert_datetimes (rewrite_id (h ! a))])"
proof -
  let ?b = "length h"
  let ?h1 = "h @ [h ! a]"
  let ?h2 = "(case map_of (?h1 ! ?b) ''_id'' of
                        Some (VObjectId oid) \<Rightarrow>
                          heap_del ?b ''_id'' (heap_set ?b ''id'' (VStr (str_oid oid)) ?h1)
                      | _ \<Rightarrow> ?h1)"
  have h2: "?h2 = h @ [rewrite_id (h ! a)]"
    by (simp add: rewrite_id_def heap_del_def heap_set_def split: option.splits pyval.splits)
  let ?h3 = "fold (convert_item_at ?b) (?h2 ! ?b) ?h2"
  have len: "length ?h3 = Suc (length h)"
    unfolding h2 by (simp add: fold_convert_item_at_length)
  have "?h3 = h @ [convert_datetimes (rewrite_id (h ! a))]"
  proof (rule nth_equalityI)
    show "length ?h3 = length (h @ [convert_datetimes (rewrite_id (h ! a))])"
      using len by simp
  next
    fix i assume "i < length ?h3"
    then have i: "i < Suc (length h)" using len by simp
    show "?h3 ! i = (h @ [convert_datetimes (rewrite_id (h ! a))]) ! i"
    proof (cases "i = length h")
      case True
      then show ?thesis
        unfolding h2 by (simp add: fold_convert_item_at_same convert_datetimes_def)
    next
      case False
      with i have "i < length h" by simp
      then show ?thesis
        unfolding h2 using False by (simp add: fold_convert_item_at_other nth_append)
    qed
  qed
  then show ?thesis
    using assms by (simp add: serialize_doc_obj_def Let_def)
qed

lemma rewrite_id_map_of_oid:
  "map_of d ''_id'' = Some (VObjectId oid) \<Longrightarrow>
   map_of (rewrite_id d) k =
     (if k = ''_id'' then None else if k = ''id'' then Some (VStr (str_oid oid)) else map_of d k)"
  by (simp add: rewrite_id_def delete_conv' update_conv')

lemma rewrite_id_other:
  "\<forall>oid. map_of d ''_id'' \<noteq> Some (VObjectId oid) \<Longrightarrow> rewrite_id d = d"
  by (auto simp: rewrite_id_def split: option.splits pyval.splits)

text \<open>
  C3. \<open>serialize_doc\<close> applied to a reference to a dictionary with distinct keys:
  \<open>None\<close> and a reference to the empty dictionary come back as they are, with the heap
  as it was. Otherwise the result is a new object and every object that existed before,
  the argument among them, is as it was. In the new object an \<open>ObjectId\<close> under
  \<open>_id\<close> has become its string under \<open>id\<close> and \<open>_id\<close> is gone; every other key
  holds the ISO text of its datetime, or its old value if that is no datetime; no other
  key has appeared. The new object is what \<open>serialize_doc\<close> on values computes.
\<close>

theorem serialize_doc_contract:
  assumes ref: "a < length h" and wf: "wf_dict (h ! a)"
  shows "serialize_doc_obj None h = (None, h) \<and>
         (h ! a = [] \<longrightarrow> serialize_doc_obj (Some a) h = (Some a, h)) \<and>
         (h ! a \<noteq> [] \<longrightarrow>
            (\<exists>out. serialize_doc_obj (Some a) h = (Some (length h), h @ [out]) \<and>
               (h @ [out]) ! a = h ! a \<and>
               serialize_doc (Some (h ! a)) = Some out \<and>
               (\<forall>oid. map_of (h ! a) ''_id'' = Some (VObjectId oid) \<longrightarrow>
                   map_of out ''id'' = Some (VStr (str_oid oid)) \<and>
                   map_of out ''_id'' = None \<and>
                   (\<forall>k. k \<noteq> ''id'' \<and> k \<noteq> ''_id'' \<longrightarrow>
                        map_of out k = map_option iso_value (map_of (h ! a) k))) \<and>
               ((\<forall>oid. map_of (h ! a) ''_id'' \<noteq> Some (VObjectId oid)) \<longrightarrow>
                   (\<forall>k. map_of out k = map_option iso_value (map_of (h ! a) k)))))"
proof (intro conjI impI)
  show "serialize_doc_obj None h = (None, h)"
    by (simp add: serialize_doc_obj_def)
next
  assume "h ! a = []"
  then show "serialize_doc_obj (Some a) h = (Some a, h)"
    by (simp add: serialize_doc_obj_def)
next
  assume ne: "h ! a \<noteq> []"
  let ?d = "h ! a"
  let ?out = "convert_datetimes (rewrite_id ?d)"
  have wfr: "wf_dict (rewrite_id ?d)" using wf by (rule rewrite_id_wf)
  have out: "map_of ?out k = map_option iso_value (map_of (rewrite_id ?d) k)" for k
    using wfr by (rule convert_datetimes_map_of)
  have 1: "serialize_doc_obj (Some a) h = (Some (length h), h @ [?out])"
    using ref ne by (rule serialize_doc_obj_refines)
  have 2: "(h @ [?out]) ! a = ?d" using ref by (simp add: nth_append)
  have 3: "serialize_doc (Some ?d) = Some ?out" using ne by (simp add: serialize_doc_def)
  have 4: "map_of ?out ''id'' = Some (VStr (str_oid oid)) \<and> map_of ?out ''_id'' = None \<and>
           (\<forall>k. k \<noteq> ''id'' \<and> k \<noteq> ''_id'' \<longrightarrow> map_of ?out k = map_option iso_value (map_of ?d k))"
    if "map_of ?d ''_id'' = Some (VObjectId oid)" for oid
    by (simp add: out rewrite_id_map_of_oid[OF that])
  have 5: "\<forall>k. map_of ?out k = map_option iso_value (map_of ?d k)"
    if "\<forall>oid. map_of ?d ''_id'' \<noteq> Some (VObjectId oid)"
    using out by (simp only: rewrite_id_other[OF that]) simp
  show "\<exists>out. serialize_doc_obj (Some a) h = (Some (length h), h @ [out]) \<and>
               (h @ [out]) ! a = h ! a \<and>
               serialize_doc (Some (h ! a)) = Some out \<and>
               (\<forall>oid. map_of (h ! a) ''_id'' = Some (VObjectId oid) \<longrightarrow>
                   map_of out ''id'' = Some (VStr (str_oid oid)) \<and>
                   map_of out ''_id'' = None \<and>
                   (\<forall>k. k \<noteq> ''id'' \<and> k \<noteq> ''_id'' \<longrightarrow>
                        map_of out k = map_option iso_value (map_of (h ! a) k))) \<and>
               ((\<forall>oid. map_of (h ! a) ''_id'' \<noteq> Some (VObjectId oid)) \<longrightarrow>
                   (\<forall>k. map_of out k = map_option iso_value (map_of (h ! a) k)))"
    using 1 2 3 4 5 by blast
qed

theorem serialize_doc_contract_witness:
  "\<exists>out. serialize_doc_obj (Some 0) [example_doc] = (Some 1, [example_doc, out]) \<and>
         map_of out ''id'' = Some (VStr ''0000000000000000000000ff'') \<and>
         map_of out ''_id'' = None \<and>
         map_of out ''title'' = Some (VStr ''Buy milk'') \<and>
         map_of out ''updated_at'' = Some (VStr ''2024-03-09T07:05:00'')"
proof -
  have ref: "0 < length [example_doc]" by simp
  have wf: "wf_dict ([example_doc] ! 0)" by (simp add: example_doc_facts)
  have ne: "[example_doc] ! 0 \<noteq> []" by (simp add: example_doc_facts)
  from serialize_doc_contract[OF ref wf] ne
  obtain out where o1: "serialize_doc_obj (Some 0) [example_doc] = (Some (length [example_doc]), [example_doc] @ [out])"
    and o2: "\<forall>oid. map_of ([example_doc] ! 0) ''_id'' = Some (VObjectId oid) \<longrightarrow>
                   map_of out ''id'' = Some (VStr (str_oid oid)) \<and>
                   map_of out ''_id'' = None \<and>
                   (\<forall>k. k \<noteq> ''id'' \<and> k \<noteq> ''_id'' \<longrightarrow>
                        map_of out k = map_option iso_value (map_of ([example_doc] ! 0) k))"
    by blast
  have oid: "map_of ([example_doc] ! 0) ''_id'' = Some (VObjectId (ObjectId 255))"
    by (simp add: example_doc_facts)
  from o2[rule_format, OF oid]
  have a: "map_of out ''id'' = Some (VStr (str_oid (ObjectId 255)))"
    and b: "map_of out ''_id'' = None"
    and c: "\<And>k. k \<noteq> ''id'' \<and> k \<noteq> ''_id'' \<Longrightarrow> map_of out k = map_option iso_value (map_of ([example_doc] ! 0) k)"
    by blast+
  have t: "map_of out ''title'' = Some (VStr ''Buy milk'')"
    using c[of "''title''"] by (simp add: example_doc_facts)
  have u: "map_of out ''updated_at'' = Some (VStr ''2024-03-09T07:05:00'')"
    using c[of "''updated_at''"] by (simp add: example_doc_facts example_texts)
  from o1 have o1': "serialize_doc_obj (Some 0) [example_doc] = (Some 1, [example_doc, out])" by simp
  from a have a': "map_of out ''id'' = Some (VStr ''0000000000000000000000ff'')"
    by (simp only: example_texts)
  from o1' a' b t u show ?thesis by (intro exI[of _ out] conjI)
qed

section \<open>Identifiers as text\<close>

lemma hex_value_digit_char_all: "\<forall>m\<in>set [0..<16]. hex_value (digit_char m) = Some m"
  by code_simp

lemma hex_value_digit_char: "m < 16 \<Longrightarrow> hex_value (digit_char m) = Some m"
  using hex_value_digit_char_all by simp

lemma hex_number_append:
  "hex_number acc (xs @ ys) =
     (case hex_number acc xs of None \<Rightarrow> None | Some a \<Rightarrow> hex_number a ys)"
  by (induction xs arbitrary: acc) (auto split: option.splits)

lemma hex_number_digits: "hex_number acc (digits 16 k n) = Some (acc * 16 ^ k + n mod 16 ^ k)"
proof (induction k arbitrary: n)
  case 0
  then show ?case by simp
next
  case (Suc k)
  have "n mod (16 * 16 ^ k) = 16 * (n div 16 mod 16 ^ k) + n mod 16"
    by (rule mod_mult2_eq)
  then show ?case
    by (simp add: hex_number_append Suc.IH hex_value_digit_char algebra_simps)
qed

lemma length_digits: "length (digits b k n) = k"
  by (induction k arbitrary: n) simp_all

lemma parse_oid_str_oid: "n < 2 ^ 96 \<Longrightarrow> parse_oid (str_oid (ObjectId n)) = Some (ObjectId n)"
proof -
  assume n: "n < 2 ^ 96"
  have "(16::nat) ^ 24 = 2 ^ 96" by simp
  with n have "n mod 16 ^ 24 = n" by simp
  then show ?thesis
    by (simp add: parse_oid_def length_digits hex_number_digits del: power_numeral)
qed

lemma str_oid_inj:
  "n < 2 ^ 96 \<Longrightarrow> m < 2 ^ 96 \<Longrightarrow> str_oid (ObjectId n) = str_oid (ObjectId m) \<Longrightarrow> n = m"
  using parse_oid_str_oid[of n] parse_oid_str_oid[of m] by simp

lemma str_oid_nonempty: "str_oid oid \<noteq> []"
proof -
  obtain n where "oid = ObjectId n" by (cases oid)
  then have "length (str_oid oid) = 24" by (simp add: length_digits)
  then show ?thesis by auto
qed

lemma isoformat_length: "length (isoformat t) = (if microsecond t = 0 then 19 else 26)"
  by (simp add: isoformat_def length_digits)

section \<open>Properties of the store operations\<close>

lemma set_fields_map_of:
  "distinct (map fst upd) \<Longrightarrow>
   map_of (set_fields upd d) k = (case map_of upd k of Some v \<Rightarrow> Some v | None \<Rightarrow> map_of d k)"
  unfolding set_fields_def
proof (induction upd arbitrary: d)
  case Nil
  then show ?case by simp
next
  case (Cons x upd)
  obtain k' v where x: "x = (k', v)" by (cases x)
  from Cons.prems have dx: "distinct (map fst upd)" and nk: "k' \<notin> fst ` set upd" by (auto simp: x)
  have none: "k = k' \<Longrightarrow> map_of upd k = None" using nk by (simp add: map_of_eq_None_iff)
  show ?case
    using Cons.IH[OF dx, of "AList.update k' v d"] none
    by (auto simp: x update_conv' split: option.splits)
qed

lemma has_id_set_fields:
  "distinct (map fst upd) \<Longrightarrow> map_of upd ''_id'' = None \<Longrightarrow>
   has_id oid (set_fields upd d) = has_id oid d"
  by (simp add: has_id_def set_fields_map_of)

lemma find_update_first_same:
  "(\<And>x. P x \<Longrightarrow> P (f x)) \<Longrightarrow> find P (update_first P f xs) = map_option f (find P xs)"
  by (induction xs) auto

lemma find_update_first_other:
  "(\<And>x. P x \<Longrightarrow> \<not> Q x \<and> \<not> Q (f x)) \<Longrightarrow> find Q (update_first P f xs) = find Q xs"
  by (induction xs) auto

lemma has_id_exclusive: "has_id oid d \<Longrightarrow> oid' \<noteq> oid \<Longrightarrow> \<not> has_id oid' d"
  by (auto simp: has_id_def)

lemma update_fields_map_of:
  "map_of (update_fields p) k =
     (if k = ''title'' then map_option VStr (TaskUpdate.title p)
      else if k = ''notes'' then map_option VStr (TaskUpdate.notes p)
      else if k = ''due_at'' then map_option VDateTime (TaskUpdate.due_at p)
      else if k = ''completed'' then map_option VBool (TaskUpdate.completed p)
      else None)"
  by (auto simp: update_fields_def model_dump_def opt_def split: option.splits)

lemma update_fields_distinct: "distinct (map fst (update_fields p))"
  by (simp add: update_fields_def model_dump_def distinct_map_filter)

lemma update_set_distinct: "distinct (map fst (update_set now p))"
  by (simp add: update_set_def distinct_update update_fields_distinct)

lemma update_set_map_of:
  "map_of (update_set now p) k =
     (if k = ''updated_at'' then Some (VDateTime now) else map_of (update_fields p) k)"
  by (simp add: update_set_def update_conv')

lemma update_task_found:
  assumes "parse_oid task_id = Some oid" and "find (has_id oid) (docs s) = Some d"
    and "update_fields payload \<noteq> []"
  shows "docs (snd (update_task now task_id payload s)) =
           update_first (has_id oid) (set_fields (update_set now payload)) (docs s)"
    and "fst (update_task now task_id payload s) =
           TaskOut_of (serialize_doc (Some (set_fields (update_set now payload) d)))"
proof -
  have keep: "has_id oid (set_fields (update_set now payload) x)" if "has_id oid x" for x
    using that
    by (simp add: has_id_set_fields update_set_distinct update_set_map_of update_fields_map_of)
  have f: "find (has_id oid) (update_first (has_id oid) (set_fields (update_set now payload)) (docs s))
             = Some (set_fields (update_set now payload) d)"
    using assms(2) by (simp add: find_update_first_same keep)
  show "docs (snd (update_task now task_id payload s)) =
           update_first (has_id oid) (set_fields (update_set now payload)) (docs s)"
    using assms
    by (simp add: update_task_def update_one_def find_one_def log_call_def update_set_def Let_def)
  show "fst (update_task now task_id payload s) =
           TaskOut_of (serialize_doc (Some (set_fields (update_set now payload) d)))"
    using assms f
    by (simp add: update_task_def update_one_def find_one_def log_call_def update_set_def Let_def)
qed

lemma update_task_stored:
  assumes "parse_oid task_id = Some oid" and "find (has_id oid) (docs s) = Some d"
    and "update_fields payload \<noteq> []"
  shows "find (has_id oid) (docs (snd (update_task now task_id payload s))) =
           Some (set_fields (update_set now payload) d)"
    and "oid' \<noteq> oid \<Longrightarrow> find (has_id oid') (docs (snd (update_task now task_id payload s))) =
           find (has_id oid') (docs s)"
proof -
  have keep: "has_id oid (set_fields (update_set now payload) x)" if "has_id oid x" for x
    using that
    by (simp add: has_id_set_fields update_set_distinct update_set_map_of update_fields_map_of)
  show "find (has_id oid) (docs (snd (update_task now task_id payload s))) =
           Some (set_fields (update_set now payload) d)"
    using assms(2) by (simp add: update_task_found(1)[OF assms] find_update_first_same keep)
  show "find (has_id oid') (docs (snd (update_task now task_id payload s))) =
           find (has_id oid') (docs s)" if "oid' \<noteq> oid"
    unfolding update_task_found(1)[OF assms]
    by (rule find_update_first_other) (use that keep has_id_exclusive in blast)
qed

lemma find_has_id_nonempty: "find (has_id oid) xs = Some d \<Longrightarrow> has_id oid d \<and> d \<noteq> []"
  by (auto simp: find_Some_iff has_id_def)

lemma falsy_doc_find: "falsy_doc (find (has_id oid) xs) \<longleftrightarrow> find (has_id oid) xs = None"
  by (cases "find (has_id oid) xs") (auto simp: falsy_doc_def dest: find_has_id_nonempty)

lemma update_first_none: "find P xs = None \<Longrightarrow> update_first P f xs = xs"
  by (induction xs) (auto split: if_splits)

lemma toggle_set_facts:
  "distinct (map fst (toggle_set now d))"
  "map_of (toggle_set now d) k =
     (if k = ''completed'' then Some (VBool (\<not> truthy (dict_get d ''completed'' (VBool False))))
      else if k = ''updated_at'' then Some (VDateTime now) else None)"
  by (simp_all add: toggle_set_def)

lemma toggle_task_found:
  assumes "parse_oid task_id = Some oid" and "find (has_id oid) (docs s) = Some d"
  shows "docs (snd (toggle_task now task_id s)) =
           update_first (has_id oid) (set_fields (toggle_set now d)) (docs s)"
    and "find (has_id oid) (docs (snd (toggle_task now task_id s))) =
           Some (set_fields (toggle_set now d) d)"
    and "fst (toggle_task now task_id s) =
           TaskOut_of (serialize_doc (Some (set_fields (toggle_set now d) d)))"
proof -
  have nf: "\<not> falsy_doc (Some d)"
    using find_has_id_nonempty[OF assms(2)] by (simp add: falsy_doc_def)
  have keep: "has_id oid (set_fields (toggle_set now d) x)" if "has_id oid x" for x
    using that by (simp add: has_id_set_fields toggle_set_facts)
  have f: "find (has_id oid) (update_first (has_id oid) (set_fields (toggle_set now d)) (docs s))
             = Some (set_fields (toggle_set now d) d)"
    using assms(2) by (simp add: find_update_first_same keep)
  show 1: "docs (snd (toggle_task now task_id s)) =
           update_first (has_id oid) (set_fields (toggle_set now d)) (docs s)"
    using assms nf
    by (simp add: toggle_task_def update_one_def find_one_def log_call_def toggle_set_def Let_def)
  show "find (has_id oid) (docs (snd (toggle_task now task_id s))) =
           Some (set_fields (toggle_set now d) d)"
    using f by (simp only: 1)
  show "fst (toggle_task now task_id s) =
           TaskOut_of (serialize_doc (Some (set_fields (toggle_set now d) d)))"
    using assms nf f
    by (simp add: toggle_task_def update_one_def find_one_def log_call_def toggle_set_def Let_def)
qed

lemma toggled_doc_map_of:
  "map_of (set_fields (toggle_set now d) d) k =
     (if k = ''completed'' then Some (VBool (\<not> truthy (dict_get d ''completed'' (VBool False))))
      else if k = ''updated_at'' then Some (VDateTime now) else map_of d k)"
  by (simp add: set_fields_map_of toggle_set_facts)


lemma update_task_empty_store:
  "parse_oid task_id = Some oid \<Longrightarrow> update_fields payload = [] \<Longrightarrow>
   snd (update_task now task_id payload s) = s"
  by (simp add: update_task_def)


lemma delete_first_none: "find P xs = None \<Longrightarrow> delete_first P xs = xs"
  by (induction xs) (auto split: if_splits)

lemma find_delete_first_unique:
  "distinct (map g xs) \<Longrightarrow> find (\<lambda>x. g x = a) (delete_first (\<lambda>x. g x = a) xs) = None"
proof (induction xs)
  case Nil
  then show ?case by simp
next
  case (Cons x xs)
  show ?case
  proof (cases "g x = a")
    case True
    with Cons.prems have "a \<notin> g ` set xs" by simp
    then have "\<forall>y\<in>set xs. g y \<noteq> a" by (auto simp: image_iff)
    with True show ?thesis by (simp add: find_None_iff)
  next
    case False
    with Cons show ?thesis by simp
  qed
qed

lemma find_delete_first_has_id:
  "unique_ids ds \<Longrightarrow> find (has_id oid) (delete_first (has_id oid) ds) = None"
  using find_delete_first_unique[of "\<lambda>d. map_of d ''_id''" ds "Some (VObjectId oid)"]
  by (simp add: unique_ids_def has_id_def[abs_def])

lemma delete_task_parsed:
  "parse_oid task_id = Some oid \<Longrightarrow>
   delete_task task_id s =
     (if find (has_id oid) (docs s) = None then Inl (HTTPException 404 ''Task not found'')
      else Inr [(''success'', VBool True)],
      log_call (DeleteOne oid) (s\<lparr>docs := delete_first (has_id oid) (docs s)\<rparr>))"
  by (simp add: delete_task_def delete_one_def)


lemma serialize_doc_map_of:
  assumes "wf_dict d" and "has_id oid d"
  shows "\<exists>out. serialize_doc (Some d) = Some out \<and>
           (\<forall>k. map_of out k =
                  (if k = ''_id'' then None
                   else if k = ''id'' then Some (VStr (str_oid oid))
                   else map_option iso_value (map_of d k)))"
proof -
  from assms(2) have id: "map_of d ''_id'' = Some (VObjectId oid)" by (simp add: has_id_def)
  then have ne: "d \<noteq> []" by auto
  let ?out = "convert_datetimes (rewrite_id d)"
  have "map_of ?out k = map_option iso_value (map_of (rewrite_id d) k)" for k
    using rewrite_id_wf[OF assms(1)] by (rule convert_datetimes_map_of)
  then have "\<forall>k. map_of ?out k =
                  (if k = ''_id'' then None
                   else if k = ''id'' then Some (VStr (str_oid oid))
                   else map_option iso_value (map_of d k))"
    by (simp add: rewrite_id_map_of_oid[OF id])
  moreover have "serialize_doc (Some d) = Some ?out" using ne by (simp add: serialize_doc_def)
  ultimately show ?thesis by blast
qed

lemma new_doc_facts:
  "wf_dict (new_doc now payload s)"
  "has_id (ObjectId (next_oid s)) (new_doc now payload s)"
  "map_of (new_doc now payload s) ''title'' = Some (VStr (TaskCreate.title payload))"
  "map_of (new_doc now payload s) ''notes'' = Some (opt VStr (TaskCreate.notes payload))"
  "map_of (new_doc now payload s) ''due_at'' = Some (opt VDateTime (TaskCreate.due_at payload))"
  "map_of (new_doc now payload s) ''completed'' = Some (VBool False)"
  "map_of (new_doc now payload s) ''created_at'' = Some (VDateTime now)"
  "map_of (new_doc now payload s) ''updated_at'' = Some (VDateTime now)"
  by (simp_all add: new_doc_def wf_dict_def has_id_def)

lemma ids_issued_fresh:
  "ids_issued s \<Longrightarrow> find (has_id (ObjectId (next_oid s))) (docs s) = None"
  by (auto simp: ids_issued_def issued_id_def find_None_iff list_all_iff has_id_def)

lemma find_append_new:
  "find P xs = None \<Longrightarrow> P x \<Longrightarrow> find P (xs @ [x]) = Some x"
  by (induction xs) (auto split: if_splits)

lemma create_task_run:
  assumes "ids_issued s" and "next_oid s < 2 ^ 96"
  shows "docs (snd (create_task now payload s)) = docs s @ [new_doc now payload s]"
    and "next_oid (snd (create_task now payload s)) = Suc (next_oid s)"
    and "find (has_id (ObjectId (next_oid s))) (docs (snd (create_task now payload s))) =
           Some (new_doc now payload s)"
    and "fst (create_task now payload s) =
           TaskOut_of (serialize_doc (Some (new_doc now payload s)))"
proof -
  have p: "parse_oid (str_oid (ObjectId (next_oid s))) = Some (ObjectId (next_oid s))"
    using assms(2) by (rule parse_oid_str_oid)
  have f: "find (has_id (ObjectId (next_oid s))) (docs s @ [new_doc now payload s]) =
             Some (new_doc now payload s)"
    by (rule find_append_new[OF ids_issued_fresh[OF assms(1)] new_doc_facts(2)])
  have c: "create_document now \<lparr>Task.title = TaskCreate.title payload,
               Task.notes = TaskCreate.notes payload, Task.due_at = TaskCreate.due_at payload,
               Task.completed = False\<rparr> s =
             (str_oid (ObjectId (next_oid s)),
              log_call (InsertOne (new_doc now payload s))
                (s\<lparr>docs := docs s @ [new_doc now payload s], next_oid := Suc (next_oid s)\<rparr>))"
    by (simp add: create_document_def new_doc_def Let_def)
  have run: "create_task now payload s =
          (TaskOut_of (serialize_doc (Some (new_doc now payload s))),
           log_call (FindOne (ObjectId (next_oid s)))
             (log_call (InsertOne (new_doc now payload s))
                (s\<lparr>docs := docs s @ [new_doc now payload s], next_oid := Suc (next_oid s)\<rparr>)))"
    unfolding create_task_def Let_def c
    using f by (simp add: p find_one_def log_call_def del: str_oid.simps)
  show "docs (snd (create_task now payload s)) = docs s @ [new_doc now payload s]"
    and "next_oid (snd (create_task now payload s)) = Suc (next_oid s)"
    and "fst (create_task now payload s) =
           TaskOut_of (serialize_doc (Some (new_doc now payload s)))"
    by (simp_all add: run log_call_def)
  then show "find (has_id (ObjectId (next_oid s))) (docs (snd (create_task now payload s))) =
           Some (new_doc now payload s)"
    using f by simp
qed

lemma TaskOut_of_new_doc:
  "TaskOut_of (serialize_doc (Some (new_doc now payload s))) =
     Inr \<lparr>TaskOut.id = str_oid (ObjectId (next_oid s)),
          TaskOut.title = TaskCreate.title payload,
          TaskOut.notes = TaskCreate.notes payload,
          TaskOut.due_at = map_option isoformat (TaskCreate.due_at payload),
          TaskOut.completed = False,
          TaskOut.created_at = Some (isoformat now),
          TaskOut.updated_at = Some (isoformat now)\<rparr>"
proof -
  from serialize_doc_map_of[OF new_doc_facts(1,2), of now payload s]
  obtain out where o: "serialize_doc (Some (new_doc now payload s)) = Some out"
    and m: "\<And>k. map_of out k =
                  (if k = ''_id'' then None
                   else if k = ''id'' then Some (VStr (str_oid (ObjectId (next_oid s))))
                   else map_option iso_value (map_of (new_doc now payload s) k))"
    by blast
  show ?thesis
    unfolding o
    by (simp add: TaskOut_of_def required_str_def optional_str_def required_bool_def m
          new_doc_facts opt_def del: str_oid.simps split: option.splits)
qed

section \<open>The handlers keep the collection well formed\<close>

text \<open>
  The empty collection satisfies \<open>store_ok\<close> and every handler keeps it, so the
  conditions on the store in the theorems below hold in every state the handlers reach.
\<close>

lemma toggle_task_docs:
  "docs (snd (toggle_task now task_id s)) =
     (case parse_oid task_id of
        None \<Rightarrow> docs s
      | Some oid \<Rightarrow>
          (case find (has_id oid) (docs s) of
             None \<Rightarrow> docs s
           | Some d \<Rightarrow> update_first (has_id oid) (set_fields (toggle_set now d)) (docs s)))"
  "next_oid (snd (toggle_task now task_id s)) = next_oid s"
proof -
  show "docs (snd (toggle_task now task_id s)) =
     (case parse_oid task_id of
        None \<Rightarrow> docs s
      | Some oid \<Rightarrow>
          (case find (has_id oid) (docs s) of
             None \<Rightarrow> docs s
           | Some d \<Rightarrow> update_first (has_id oid) (set_fields (toggle_set now d)) (docs s)))"
    by (auto simp: toggle_task_found(1) split: option.splits)
       (auto simp: toggle_task_def find_one_def falsy_doc_def log_call_def)
  show "next_oid (snd (toggle_task now task_id s)) = next_oid s"
    by (auto simp: toggle_task_def find_one_def update_one_def log_call_def Let_def
             split: option.splits prod.splits)
qed

lemma update_task_docs:
  "docs (snd (update_task now task_id payload s)) =
     (case parse_oid task_id of
        None \<Rightarrow> docs s
      | Some oid \<Rightarrow>
          if update_fields payload = [] then docs s
          else update_first (has_id oid) (set_fields (update_set now payload)) (docs s))"
  "next_oid (snd (update_task now task_id payload s)) = next_oid s"
  by (auto simp: update_task_def find_one_def update_one_def log_call_def Let_def update_set_def
           split: option.splits prod.splits)

lemma delete_task_docs:
  "docs (snd (delete_task task_id s)) =
     (case parse_oid task_id of
        None \<Rightarrow> docs s
      | Some oid \<Rightarrow> delete_first (has_id oid) (docs s))"
  "next_oid (snd (delete_task task_id s)) = next_oid s"
  by (auto simp: delete_task_def delete_one_def log_call_def Let_def split: option.splits)

lemma create_task_docs:
  "docs (snd (create_task now payload s)) = docs s @ [new_doc now payload s]"
  "next_oid (snd (create_task now payload s)) = Suc (next_oid s)"
  by (auto simp: create_task_def create_document_def find_one_def log_call_def Let_def new_doc_def
           split: option.splits prod.splits)

lemma map_update_first: "(\<And>x. g (f x) = g x) \<Longrightarrow> map g (update_first P f xs) = map g xs"
  by (induction xs) auto

lemma list_all_update_first:
  "list_all Q xs \<Longrightarrow> (\<And>x. Q x \<Longrightarrow> Q (f x)) \<Longrightarrow> list_all Q (update_first P f xs)"
  by (induction xs) auto

lemma set_delete_first: "set (delete_first P xs) \<subseteq> set xs"
  by (induction xs) auto

lemma distinct_map_delete_first: "distinct (map g xs) \<Longrightarrow> distinct (map g (delete_first P xs))"
proof (induction xs)
  case Nil
  then show ?case by simp
next
  case (Cons x xs)
  then show ?case using set_delete_first[of P xs] by auto
qed

lemma set_fields_keeps_id:
  "distinct (map fst upd) \<Longrightarrow> map_of upd ''_id'' = None \<Longrightarrow>
   map_of (set_fields upd d) ''_id'' = map_of d ''_id''"
  by (simp add: set_fields_map_of)

lemma update_set_no_id: "map_of (update_set now p) ''_id'' = None"
  by (simp add: update_set_map_of update_fields_map_of)

lemma toggle_set_no_id: "map_of (toggle_set now d) ''_id'' = None"
  by (simp add: toggle_set_facts)

lemma completed_is_bool_toggle: "completed_is_bool (set_fields (toggle_set now d) x)"
  by (simp add: completed_is_bool_def set_fields_map_of toggle_set_facts)

lemma completed_is_bool_update:
  "completed_is_bool x \<Longrightarrow> completed_is_bool (set_fields (update_set now p) x)"
  by (auto simp: completed_is_bool_def set_fields_map_of update_set_distinct update_set_map_of
        update_fields_map_of split: option.splits pyval.splits)

lemma store_ok_update_first:
  assumes ok: "store_ok s"
    and id: "\<And>x. map_of (f x) ''_id'' = map_of x ''_id''"
    and cb: "\<And>x. completed_is_bool x \<Longrightarrow> completed_is_bool (f x)"
    and d: "docs s' = update_first P f (docs s)" and n: "next_oid s' = next_oid s"
  shows "store_ok s'"
proof -
  from ok have i: "ids_issued s" and u: "unique_ids (docs s)"
    and c: "list_all completed_is_bool (docs s)"
    by (simp_all add: store_ok_def)
  have "ids_issued s'"
    using i unfolding ids_issued_def d n
    by (rule list_all_update_first) (simp add: issued_id_def id)
  moreover have "unique_ids (docs s')"
    using u unfolding unique_ids_def d by (simp add: map_update_first[of "\<lambda>d. map_of d ''_id''"] id)
  moreover have "list_all completed_is_bool (docs s')"
    unfolding d using c by (rule list_all_update_first) (rule cb)
  ultimately show ?thesis by (simp add: store_ok_def)
qed

lemma store_ok_empty: "store_ok empty_store"
  by (simp add: store_ok_def empty_store_def ids_issued_def unique_ids_def)

lemma store_ok_toggle: "store_ok s \<Longrightarrow> store_ok (snd (toggle_task now task_id s))"
proof -
  assume ok: "store_ok s"
  let ?s' = "snd (toggle_task now task_id s)"
  show "store_ok ?s'"
  proof (cases "\<exists>oid d. parse_oid task_id = Some oid \<and> find (has_id oid) (docs s) = Some d")
    case True
    then obtain oid d where "parse_oid task_id = Some oid" "find (has_id oid) (docs s) = Some d"
      by blast
    then have d: "docs ?s' = update_first (has_id oid) (set_fields (toggle_set now d)) (docs s)"
      by (simp add: toggle_task_docs)
    show ?thesis
      by (rule store_ok_update_first[OF ok _ _ d toggle_task_docs(2)])
         (simp_all add: set_fields_keeps_id toggle_set_facts completed_is_bool_toggle)
  next
    case False
    then have "docs ?s' = docs s"
      by (auto simp: toggle_task_docs split: option.splits)
    with ok toggle_task_docs(2)[of now task_id s] show ?thesis
      by (simp add: store_ok_def ids_issued_def)
  qed
qed

lemma store_ok_update: "store_ok s \<Longrightarrow> store_ok (snd (update_task now task_id payload s))"
proof -
  assume ok: "store_ok s"
  let ?s' = "snd (update_task now task_id payload s)"
  show "store_ok ?s'"
  proof (cases "\<exists>oid. parse_oid task_id = Some oid \<and> update_fields payload \<noteq> []")
    case True
    then obtain oid where "parse_oid task_id = Some oid" "update_fields payload \<noteq> []"
      by blast
    then have d: "docs ?s' = update_first (has_id oid) (set_fields (update_set now payload)) (docs s)"
      by (simp add: update_task_docs)
    show ?thesis
      by (rule store_ok_update_first[OF ok _ _ d update_task_docs(2)])
         (simp_all add: set_fields_keeps_id update_set_distinct update_set_no_id
            completed_is_bool_update)
  next
    case False
    then have "docs ?s' = docs s"
      by (auto simp: update_task_docs split: option.splits)
    with ok update_task_docs(2)[of now task_id payload s] show ?thesis
      by (simp add: store_ok_def ids_issued_def)
  qed
qed

lemma store_ok_delete: "store_ok s \<Longrightarrow> store_ok (snd (delete_task task_id s))"
proof -
  assume ok: "store_ok s"
  let ?s' = "snd (delete_task task_id s)"
  have sub: "set (docs ?s') \<subseteq> set (docs s)"
    by (auto simp: delete_task_docs split: option.splits dest: set_delete_first[THEN subsetD])
  have u: "unique_ids (docs ?s')"
    using ok
    by (auto simp: store_ok_def unique_ids_def delete_task_docs distinct_map_delete_first
             split: option.splits)
  from ok sub u show ?thesis
    by (auto simp: store_ok_def ids_issued_def delete_task_docs(2) list_all_iff)
qed

lemma store_ok_create: "store_ok s \<Longrightarrow> store_ok (snd (create_task now payload s))"
proof -
  assume ok: "store_ok s"
  let ?s' = "snd (create_task now payload s)"
  from ok have i: "ids_issued s" and u: "unique_ids (docs s)"
    and c: "list_all completed_is_bool (docs s)"
    by (simp_all add: store_ok_def)
  have below: "issued_id (next_oid s) d \<Longrightarrow> issued_id (Suc (next_oid s)) d \<and>
                 map_of d ''_id'' \<noteq> Some (VObjectId (ObjectId (next_oid s)))" for d
    by (auto simp: issued_id_def split: option.splits pyval.splits objectid.splits)
  have fresh: "Some (VObjectId (ObjectId (next_oid s))) \<notin> (\<lambda>d. map_of d ''_id'') ` set (docs s)"
  proof
    assume "Some (VObjectId (ObjectId (next_oid s))) \<in> (\<lambda>d. map_of d ''_id'') ` set (docs s)"
    then obtain d where d: "d \<in> set (docs s)"
      and e: "map_of d ''_id'' = Some (VObjectId (ObjectId (next_oid s)))"
      by auto
    from i d have "issued_id (next_oid s) d" by (simp add: ids_issued_def list_all_iff)
    from below[OF this] e show False by simp
  qed
  have "ids_issued ?s'"
    using i below
    by (auto simp: ids_issued_def create_task_docs list_all_iff)
       (simp add: issued_id_def new_doc_def)
  moreover have "unique_ids (docs ?s')"
    using u fresh by (simp add: unique_ids_def create_task_docs new_doc_def)
  moreover have "list_all completed_is_bool (docs ?s')"
    using c by (simp add: create_task_docs completed_is_bool_def new_doc_def)
  ultimately show ?thesis by (simp add: store_ok_def)
qed

section \<open>Properties of the handlers\<close>

lemma update_fields_empty_iff:
  "update_fields p = [] \<longleftrightarrow>
     TaskUpdate.title p = None \<and> TaskUpdate.notes p = None \<and>
     TaskUpdate.due_at p = None \<and> TaskUpdate.completed p = None"
  by (auto simp: update_fields_def model_dump_def opt_def split: option.splits)

text \<open>
  C2. An update whose identifier is well formed and whose payload sets no field ends
  with the 400 error "No fields to update" and hands the store back as it received it:
  the documents, the next identifier and the record of driver calls are all the same,
  so no call was made.
\<close>

theorem update_task_empty_rejected:
  assumes "parse_oid task_id = Some oid"
    and "TaskUpdate.title payload = None" and "TaskUpdate.notes payload = None"
    and "TaskUpdate.due_at payload = None" and "TaskUpdate.completed payload = None"
  shows "update_task now task_id payload s = (Inl (HTTPException 400 ''No fields to update''), s)"
  using assms by (simp add: update_task_def update_fields_empty_iff)

theorem update_task_empty_rejected_witness:
  "update_task example_time ''0000000000000000000000ff'' empty_update example_store =
     (Inl (HTTPException 400 ''No fields to update''), example_store)"
  using update_task_empty_rejected[where task_id = "''0000000000000000000000ff''"
          and oid = "ObjectId 255" and payload = empty_update and now = example_time
          and s = example_store]
  by (simp add: example_ids empty_update_def)

text \<open>
  C7. When the identifier does not parse, toggle, update and delete each end with the
  400 error "Invalid task id" and hand the store back as they received it, the record of
  driver calls included. When one of them ends with a 404, the identifier did parse and
  the collection holds no document with it.
\<close>

theorem invalid_id_rejected:
  "(parse_oid task_id = None \<longrightarrow>
      toggle_task now task_id s = (Inl (HTTPException 400 ''Invalid task id''), s) \<and>
      update_task now task_id payload s = (Inl (HTTPException 400 ''Invalid task id''), s) \<and>
      delete_task task_id s = (Inl (HTTPException 400 ''Invalid task id''), s)) \<and>
   ((fst (toggle_task now task_id s) = Inl (HTTPException 404 detail) \<or>
     fst (update_task now task_id payload s) = Inl (HTTPException 404 detail) \<or>
     fst (delete_task task_id s) = Inl (HTTPException 404 detail)) \<longrightarrow>
      (\<exists>oid. parse_oid task_id = Some oid \<and> find (has_id oid) (docs s) = None))"
proof (intro conjI impI)
  assume "parse_oid task_id = None"
  then show "toggle_task now task_id s = (Inl (HTTPException 400 ''Invalid task id''), s)"
    and "update_task now task_id payload s = (Inl (HTTPException 400 ''Invalid task id''), s)"
    and "delete_task task_id s = (Inl (HTTPException 400 ''Invalid task id''), s)"
    by (simp_all add: toggle_task_def update_task_def delete_task_def)
next
  assume nf: "fst (toggle_task now task_id s) = Inl (HTTPException 404 detail) \<or>
     fst (update_task now task_id payload s) = Inl (HTTPException 404 detail) \<or>
     fst (delete_task task_id s) = Inl (HTTPException 404 detail)"
  show "\<exists>oid. parse_oid task_id = Some oid \<and> find (has_id oid) (docs s) = None"
  proof (cases "parse_oid task_id")
    case None
    with nf show ?thesis
      by (simp add: toggle_task_def update_task_def delete_task_def)
  next
    case (Some oid)
    have t: "fst (toggle_task now task_id s) = Inl (HTTPException 404 detail) \<Longrightarrow>
             find (has_id oid) (docs s) = None"
      using Some
      by (auto simp: toggle_task_def find_one_def update_one_def falsy_doc_find Let_def log_call_def
                     TaskOut_of_def
               split: if_splits option.splits prod.splits)
    have u: "fst (update_task now task_id payload s) = Inl (HTTPException 404 detail) \<Longrightarrow>
             find (has_id oid) (docs s) = None"
      using Some
      by (auto simp: update_task_def find_one_def update_one_def Let_def log_call_def TaskOut_of_def
               split: if_splits option.splits prod.splits)
    have d: "fst (delete_task task_id s) = Inl (HTTPException 404 detail) \<Longrightarrow>
             find (has_id oid) (docs s) = None"
      using Some
      by (auto simp: delete_task_def delete_one_def Let_def split: if_splits)
    from nf t u d Some show ?thesis by blast
  qed
qed

theorem invalid_id_rejected_witness:
  "toggle_task example_time ''bad-id'' example_store =
     (Inl (HTTPException 400 ''Invalid task id''), example_store) \<and>
   update_task example_time ''bad-id'' empty_update example_store =
     (Inl (HTTPException 400 ''Invalid task id''), example_store) \<and>
   delete_task ''bad-id'' example_store =
     (Inl (HTTPException 400 ''Invalid task id''), example_store) \<and>
   fst (delete_task ''000000000000000000000002'' example_store) =
     Inl (HTTPException 404 ''Task not found'') \<and>
   (\<exists>oid. parse_oid ''000000000000000000000002'' = Some oid \<and>
          find (has_id oid) (docs example_store) = None)"
proof -
  have d: "fst (delete_task ''000000000000000000000002'' example_store) =
             Inl (HTTPException 404 ''Task not found'')"
    by (simp add: delete_task_def delete_one_def example_ids example_store_find)
  from invalid_id_rejected[where task_id = "''bad-id''" and now = example_time and s = example_store
         and payload = empty_update]
  have a: "toggle_task example_time ''bad-id'' example_store =
             (Inl (HTTPException 400 ''Invalid task id''), example_store) \<and>
           update_task example_time ''bad-id'' empty_update example_store =
             (Inl (HTTPException 400 ''Invalid task id''), example_store) \<and>
           delete_task ''bad-id'' example_store =
             (Inl (HTTPException 400 ''Invalid task id''), example_store)"
    by (simp add: example_ids)
  from invalid_id_rejected[where task_id = "''000000000000000000000002''" and now = example_time
         and s = example_store and detail = "''Task not found''" and payload = empty_update] d
  have b: "\<exists>oid. parse_oid ''000000000000000000000002'' = Some oid \<and>
          find (has_id oid) (docs example_store) = None"
    by blast
  from a b d show ?thesis by blast
qed

text \<open>
  C1. An update whose identifier parses and matches a stored document leaves that
  document with every field of the payload that was set holding the payload's value,
  and with every field of the payload that was not set holding what it held before.
  Keys outside the payload, \<open>updated_at\<close> apart, are as before, and so is every
  other document.
\<close>

theorem update_task_applies_fields:
  assumes "parse_oid task_id = Some oid" and "find (has_id oid) (docs s) = Some d"
  shows "\<exists>d'. find (has_id oid) (docs (snd (update_task now task_id payload s))) = Some d' \<and>
      map_of d' ''title'' =
        (case TaskUpdate.title payload of Some v \<Rightarrow> Some (VStr v) | None \<Rightarrow> map_of d ''title'') \<and>
      map_of d' ''notes'' =
        (case TaskUpdate.notes payload of Some v \<Rightarrow> Some (VStr v) | None \<Rightarrow> map_of d ''notes'') \<and>
      map_of d' ''due_at'' =
        (case TaskUpdate.due_at payload of Some v \<Rightarrow> Some (VDateTime v)
         | None \<Rightarrow> map_of d ''due_at'') \<and>
      map_of d' ''completed'' =
        (case TaskUpdate.completed payload of Some v \<Rightarrow> Some (VBool v)
         | None \<Rightarrow> map_of d ''completed'') \<and>
      (\<forall>k. k \<notin> {''title'', ''notes'', ''due_at'', ''completed'', ''updated_at''} \<longrightarrow>
           map_of d' k = map_of d k) \<and>
      (\<forall>oid'. oid' \<noteq> oid \<longrightarrow>
           find (has_id oid') (docs (snd (update_task now task_id payload s))) =
           find (has_id oid') (docs s))"
proof (cases "update_fields payload = []")
  case True
  then have none: "TaskUpdate.title payload = None" "TaskUpdate.notes payload = None"
    "TaskUpdate.due_at payload = None" "TaskUpdate.completed payload = None"
    by (simp_all add: update_fields_empty_iff)
  show ?thesis
    using assms by (simp add: update_task_empty_store[OF assms(1) True] none)
next
  case False
  let ?d' = "set_fields (update_set now payload) d"
  have m: "map_of ?d' k =
             (case map_of (update_set now payload) k of Some v \<Rightarrow> Some v | None \<Rightarrow> map_of d k)" for k
    by (rule set_fields_map_of[OF update_set_distinct])
  have 1: "find (has_id oid) (docs (snd (update_task now task_id payload s))) = Some ?d'"
    by (rule update_task_stored(1)[OF assms False])
  have 2: "map_of ?d' ''title'' =
        (case TaskUpdate.title payload of Some v \<Rightarrow> Some (VStr v) | None \<Rightarrow> map_of d ''title'')"
    by (simp add: m update_set_map_of update_fields_map_of split: option.splits)
  have 3: "map_of ?d' ''notes'' =
        (case TaskUpdate.notes payload of Some v \<Rightarrow> Some (VStr v) | None \<Rightarrow> map_of d ''notes'')"
    by (simp add: m update_set_map_of update_fields_map_of split: option.splits)
  have 4: "map_of ?d' ''due_at'' =
        (case TaskUpdate.due_at payload of Some v \<Rightarrow> Some (VDateTime v)
         | None \<Rightarrow> map_of d ''due_at'')"
    by (simp add: m update_set_map_of update_fields_map_of split: option.splits)
  have 5: "map_of ?d' ''completed'' =
        (case TaskUpdate.completed payload of Some v \<Rightarrow> Some (VBool v)
         | None \<Rightarrow> map_of d ''completed'')"
    by (simp add: m update_set_map_of update_fields_map_of split: option.splits)
  have 6: "\<forall>k. k \<notin> {''title'', ''notes'', ''due_at'', ''completed'', ''updated_at''} \<longrightarrow>
           map_of ?d' k = map_of d k"
    by (simp add: m update_set_map_of update_fields_map_of)
  have 7: "\<forall>oid'. oid' \<noteq> oid \<longrightarrow>
           find (has_id oid') (docs (snd (update_task now task_id payload s))) =
           find (has_id oid') (docs s)"
    using update_task_stored(2)[OF assms False] by blast
  from 1 2 3 4 5 6 7 show ?thesis by blast
qed

theorem update_task_applies_fields_witness:
  "\<exists>d'. find (has_id (ObjectId 255))
           (docs (snd (update_task later_time ''0000000000000000000000ff'' example_update
                         example_store))) = Some d' \<and>
        map_of d' ''title'' = Some (VStr ''Buy oat milk'') \<and>
        map_of d' ''completed'' = Some (VBool True) \<and>
        map_of d' ''notes'' = None \<and>
        map_of d' ''_id'' = Some (VObjectId (ObjectId 255)) \<and>
        find (has_id (ObjectId 254))
           (docs (snd (update_task later_time ''0000000000000000000000ff'' example_update
                         example_store))) = Some done_doc"
proof -
  have p: "parse_oid ''0000000000000000000000ff'' = Some (ObjectId 255)"
    by (rule example_ids)
  have f: "find (has_id (ObjectId 255)) (docs example_store) = Some example_doc"
    by (rule example_store_find)
  from update_task_applies_fields[OF p f, of later_time example_update]
  obtain d' where d: "find (has_id (ObjectId 255))
           (docs (snd (update_task later_time ''0000000000000000000000ff'' example_update
                         example_store))) = Some d'"
    and t: "map_of d' ''title'' =
        (case TaskUpdate.title example_update of Some v \<Rightarrow> Some (VStr v)
         | None \<Rightarrow> map_of example_doc ''title'')"
    and n: "map_of d' ''notes'' =
        (case TaskUpdate.notes example_update of Some v \<Rightarrow> Some (VStr v)
         | None \<Rightarrow> map_of example_doc ''notes'')"
    and c: "map_of d' ''completed'' =
        (case TaskUpdate.completed example_update of Some v \<Rightarrow> Some (VBool v)
         | None \<Rightarrow> map_of example_doc ''completed'')"
    and k: "\<forall>k. k \<notin> {''title'', ''notes'', ''due_at'', ''completed'', ''updated_at''} \<longrightarrow>
           map_of d' k = map_of example_doc k"
    and o: "\<forall>oid'. oid' \<noteq> ObjectId 255 \<longrightarrow>
           find (has_id oid')
             (docs (snd (update_task later_time ''0000000000000000000000ff'' example_update
                         example_store))) =
           find (has_id oid') (docs example_store)"
    by blast
  have t': "map_of d' ''title'' = Some (VStr ''Buy oat milk'')"
    using t by (simp add: example_update_def)
  have c': "map_of d' ''completed'' = Some (VBool True)"
    using c by (simp add: example_update_def)
  have n': "map_of d' ''notes'' = None"
    using n by (simp add: example_update_def example_doc_def)
  have i': "map_of d' ''_id'' = Some (VObjectId (ObjectId 255))"
    using k[rule_format, of "''_id''"] by (simp add: example_doc_facts)
  have o': "find (has_id (ObjectId 254))
           (docs (snd (update_task later_time ''0000000000000000000000ff'' example_update
                         example_store))) = Some done_doc"
    using o[rule_format, of "ObjectId 254"] by (simp add: example_store_find)
  from d t' c' n' i' o' show ?thesis by (intro exI[of _ d'] conjI)
qed

text \<open>
  C5. Two toggles in a row of a stored task whose \<open>completed\<close> is a boolean: after the
  first the stored value is the negation, after the second it is the original value.
\<close>

theorem toggle_twice_restores:
  assumes "parse_oid task_id = Some oid" and "find (has_id oid) (docs s) = Some d"
    and "map_of d ''completed'' = Some (VBool b)"
  shows "\<exists>d1 d2.
      find (has_id oid) (docs (snd (toggle_task t1 task_id s))) = Some d1 \<and>
      map_of d1 ''completed'' = Some (VBool (\<not> b)) \<and>
      find (has_id oid) (docs (snd (toggle_task t2 task_id (snd (toggle_task t1 task_id s))))) = Some d2 \<and>
      map_of d2 ''completed'' = Some (VBool b)"
proof -
  let ?s1 = "snd (toggle_task t1 task_id s)"
  let ?d1 = "set_fields (toggle_set t1 d) d"
  let ?d2 = "set_fields (toggle_set t2 ?d1) ?d1"
  have f1: "find (has_id oid) (docs ?s1) = Some ?d1"
    by (rule toggle_task_found(2)[OF assms(1,2)])
  have c1: "map_of ?d1 ''completed'' = Some (VBool (\<not> b))"
    using assms(3) by (simp add: toggled_doc_map_of dict_get_def)
  have f2: "find (has_id oid) (docs (snd (toggle_task t2 task_id ?s1))) = Some ?d2"
    by (rule toggle_task_found(2)[OF assms(1) f1])
  have c2: "map_of ?d2 ''completed'' = Some (VBool b)"
    using c1 by (simp add: toggled_doc_map_of[of t2 ?d1] dict_get_def)
  from f1 c1 f2 c2 show ?thesis by blast
qed

theorem toggle_twice_restores_witness:
  "\<exists>d1 d2.
      find (has_id (ObjectId 254))
        (docs (snd (toggle_task later_time ''0000000000000000000000fe'' example_store))) = Some d1 \<and>
      map_of d1 ''completed'' = Some (VBool False) \<and>
      find (has_id (ObjectId 254))
        (docs (snd (toggle_task later_time ''0000000000000000000000fe''
                 (snd (toggle_task later_time ''0000000000000000000000fe'' example_store)))))
        = Some d2 \<and>
      map_of d2 ''completed'' = Some (VBool True)"
proof -
  have p: "parse_oid ''0000000000000000000000fe'' = Some (ObjectId 254)"
    by (rule example_ids)
  have f: "find (has_id (ObjectId 254)) (docs example_store) = Some done_doc"
    by (rule example_store_find)
  have c: "map_of done_doc ''completed'' = Some (VBool True)"
    by (rule done_doc_facts)
  from toggle_twice_restores[OF p f c, of later_time later_time]
  show ?thesis by simp
qed

text \<open>
  C8. A delete whose identifier parses: when no document matches, it ends with a 404 and
  the collection is as before. When one matches, in a collection without duplicate
  identifiers, it answers \<open>{"success": True}\<close>, the document is gone, and the same
  delete made again ends with a 404 and removes nothing.
\<close>

theorem delete_task_not_found:
  assumes "parse_oid task_id = Some oid"
  shows "(find (has_id oid) (docs s) = None \<longrightarrow>
            fst (delete_task task_id s) = Inl (HTTPException 404 ''Task not found'') \<and>
            docs (snd (delete_task task_id s)) = docs s) \<and>
         (unique_ids (docs s) \<and> find (has_id oid) (docs s) \<noteq> None \<longrightarrow>
            fst (delete_task task_id s) = Inr [(''success'', VBool True)] \<and>
            find (has_id oid) (docs (snd (delete_task task_id s))) = None \<and>
            fst (delete_task task_id (snd (delete_task task_id s))) =
              Inl (HTTPException 404 ''Task not found'') \<and>
            docs (snd (delete_task task_id (snd (delete_task task_id s)))) =
              docs (snd (delete_task task_id s)))"
proof (intro conjI impI)
  assume "find (has_id oid) (docs s) = None"
  then show "fst (delete_task task_id s) = Inl (HTTPException 404 ''Task not found'')"
    and "docs (snd (delete_task task_id s)) = docs s"
    by (simp_all add: delete_task_parsed[OF assms] delete_first_none log_call_def)
next
  assume a: "unique_ids (docs s) \<and> find (has_id oid) (docs s) \<noteq> None"
  let ?s1 = "snd (delete_task task_id s)"
  have d1: "docs ?s1 = delete_first (has_id oid) (docs s)"
    by (simp add: delete_task_parsed[OF assms] log_call_def)
  have gone: "find (has_id oid) (docs ?s1) = None"
    using a by (simp add: d1 find_delete_first_has_id)
  show "fst (delete_task task_id s) = Inr [(''success'', VBool True)]"
    using a by (simp add: delete_task_parsed[OF assms])
  show "find (has_id oid) (docs ?s1) = None" by (rule gone)
  show "fst (delete_task task_id ?s1) = Inl (HTTPException 404 ''Task not found'')"
    using gone by (simp add: delete_task_parsed[OF assms, of ?s1])
  show "docs (snd (delete_task task_id ?s1)) = docs ?s1"
    using gone by (simp add: delete_task_parsed[OF assms, of ?s1] delete_first_none log_call_def)
qed

theorem delete_task_not_found_witness:
  "fst (delete_task ''000000000000000000000002'' example_store) =
     Inl (HTTPException 404 ''Task not found'') \<and>
   docs (snd (delete_task ''000000000000000000000002'' example_store)) = docs example_store \<and>
   fst (delete_task ''0000000000000000000000ff'' example_store) = Inr [(''success'', VBool True)] \<and>
   fst (delete_task ''0000000000000000000000ff''
          (snd (delete_task ''0000000000000000000000ff'' example_store))) =
     Inl (HTTPException 404 ''Task not found'')"
  using delete_task_not_found[where task_id = "''000000000000000000000002''"
          and oid = "ObjectId 2" and s = example_store]
        delete_task_not_found[where task_id = "''0000000000000000000000ff''"
          and oid = "ObjectId 255" and s = example_store]
  by (simp add: example_ids example_store_find)

text \<open>
  C10. The update set holds exactly the items of the dumped payload whose value is not
  \<open>None\<close>. With \<open>completed=false\<close> in the payload, and an identifier that matches, the
  pair \<open>completed: False\<close> is in the update set and the stored document has
  \<open>completed\<close> false afterwards; the same holds for the empty string as \<open>notes\<close>.
\<close>

theorem update_keeps_falsy_values:
  assumes "parse_oid task_id = Some oid" and "find (has_id oid) (docs s) = Some d"
  shows "(\<forall>k v. (k, v) \<in> set (update_fields payload) \<longleftrightarrow>
                 (k, v) \<in> set (model_dump payload) \<and> v \<noteq> VNone) \<and>
         (TaskUpdate.completed payload = Some False \<longrightarrow>
            (''completed'', VBool False) \<in> set (update_fields payload) \<and>
            (\<exists>d'. find (has_id oid) (docs (snd (update_task now task_id payload s))) = Some d' \<and>
                  map_of d' ''completed'' = Some (VBool False))) \<and>
         (TaskUpdate.notes payload = Some [] \<longrightarrow>
            (''notes'', VStr []) \<in> set (update_fields payload) \<and>
            (\<exists>d'. find (has_id oid) (docs (snd (update_task now task_id payload s))) = Some d' \<and>
                  map_of d' ''notes'' = Some (VStr [])))"
proof (intro conjI impI allI)
  show "(k, v) \<in> set (update_fields payload) \<longleftrightarrow> (k, v) \<in> set (model_dump payload) \<and> v \<noteq> VNone"
    for k v
    by (auto simp: update_fields_def)
next
  assume c: "TaskUpdate.completed payload = Some False"
  then show "(''completed'', VBool False) \<in> set (update_fields payload)"
    by (simp add: update_fields_def model_dump_def opt_def)
  then have ne: "update_fields payload \<noteq> []" by auto
  have "map_of (set_fields (update_set now payload) d) ''completed'' = Some (VBool False)"
    using c by (simp add: set_fields_map_of update_set_distinct update_set_map_of update_fields_map_of)
  with update_task_stored(1)[OF assms ne]
  show "\<exists>d'. find (has_id oid) (docs (snd (update_task now task_id payload s))) = Some d' \<and>
                  map_of d' ''completed'' = Some (VBool False)"
    by blast
next
  assume c: "TaskUpdate.notes payload = Some []"
  then show "(''notes'', VStr []) \<in> set (update_fields payload)"
    by (simp add: update_fields_def model_dump_def opt_def)
  then have ne: "update_fields payload \<noteq> []" by auto
  have "map_of (set_fields (update_set now payload) d) ''notes'' = Some (VStr [])"
    using c by (simp add: set_fields_map_of update_set_distinct update_set_map_of update_fields_map_of)
  with update_task_stored(1)[OF assms ne]
  show "\<exists>d'. find (has_id oid) (docs (snd (update_task now task_id payload s))) = Some d' \<and>
                  map_of d' ''notes'' = Some (VStr [])"
    by blast
qed

theorem update_keeps_falsy_values_witness:
  "(''completed'', VBool False) \<in> set (update_fields falsy_update) \<and>
   (''notes'', VStr []) \<in> set (update_fields falsy_update) \<and>
   (\<exists>d'. find (has_id (ObjectId 254))
            (docs (snd (update_task later_time ''0000000000000000000000fe'' falsy_update
                          example_store))) = Some d' \<and>
         map_of d' ''completed'' = Some (VBool False)) \<and>
   (\<exists>d'. find (has_id (ObjectId 254))
            (docs (snd (update_task later_time ''0000000000000000000000fe'' falsy_update
                          example_store))) = Some d' \<and>
         map_of d' ''notes'' = Some (VStr []))"
proof -
  have p: "parse_oid ''0000000000000000000000fe'' = Some (ObjectId 254)"
    by (rule example_ids)
  have f: "find (has_id (ObjectId 254)) (docs example_store) = Some done_doc"
    by (rule example_store_find)
  have c: "TaskUpdate.completed falsy_update = Some False"
    and n: "TaskUpdate.notes falsy_update = Some []"
    by (simp_all add: falsy_update_def)
  from update_keeps_falsy_values[OF p f, of falsy_update later_time] c n
  show ?thesis by blast
qed

text \<open>
  C4. A create request with a valid title, on a store whose identifiers were all issued
  by it and whose identifier space is not used up: one document is appended, with
  \<open>completed\<close> false and the payload's title; looking the returned identifier up
  finds that document; the response is the serialization of it, carrying the timestamps
  the store set; its \<open>completed\<close> is false and its \<open>id\<close> is a non-empty string that
  differs from the text of every identifier issued before.
\<close>

theorem create_task_contract:
  assumes "TaskCreate_valid payload" and "ids_issued s" and "next_oid s < 2 ^ 96"
  shows "\<exists>doc out.
     docs (snd (create_task now payload s)) = docs s @ [doc] \<and>
     map_of doc ''completed'' = Some (VBool False) \<and>
     map_of doc ''title'' = Some (VStr (TaskCreate.title payload)) \<and>
     find (has_id (ObjectId (next_oid s))) (docs (snd (create_task now payload s))) = Some doc \<and>
     fst (create_task now payload s) = TaskOut_of (serialize_doc (Some doc)) \<and>
     fst (create_task now payload s) = Inr out \<and>
     TaskOut.completed out = False \<and>
     TaskOut.title out = TaskCreate.title payload \<and>
     TaskOut.created_at out = Some (isoformat now) \<and>
     TaskOut.updated_at out = Some (isoformat now) \<and>
     TaskOut.id out = str_oid (ObjectId (next_oid s)) \<and>
     TaskOut.id out \<noteq> [] \<and>
     (\<forall>n<next_oid s. TaskOut.id out \<noteq> str_oid (ObjectId n))"
proof -
  let ?doc = "new_doc now payload s"
  let ?out = "\<lparr>TaskOut.id = str_oid (ObjectId (next_oid s)),
          TaskOut.title = TaskCreate.title payload,
          TaskOut.notes = TaskCreate.notes payload,
          TaskOut.due_at = map_option isoformat (TaskCreate.due_at payload),
          TaskOut.completed = False,
          TaskOut.created_at = Some (isoformat now),
          TaskOut.updated_at = Some (isoformat now)\<rparr>"
  note run = create_task_run[OF assms(2,3), of now payload]
  have r: "fst (create_task now payload s) = Inr ?out"
    by (simp only: run(4) TaskOut_of_new_doc)
  have fresh: "\<forall>n<next_oid s. TaskOut.id ?out \<noteq> str_oid (ObjectId n)"
  proof (intro allI impI)
    fix n assume n: "n < next_oid s"
    with assms(3) have "n < 2 ^ 96" by simp
    from str_oid_inj[OF assms(3) this] n
    show "TaskOut.id ?out \<noteq> str_oid (ObjectId n)" by (auto simp del: str_oid.simps)
  qed
  have ne: "TaskOut.id ?out \<noteq> []"
    using str_oid_nonempty[of "ObjectId (next_oid s)"] by (simp del: str_oid.simps)
  show ?thesis
    apply (rule exI[of _ ?doc], rule exI[of _ ?out])
    using run r fresh ne by (simp add: new_doc_facts del: str_oid.simps)
qed

theorem create_task_contract_witness:
  "\<exists>out. fst (create_task later_time example_create example_store) = Inr out \<and>
         TaskOut.completed out = False \<and>
         TaskOut.title out = ''Buy milk'' \<and>
         TaskOut.id out = ''000000000000000000000100'' \<and>
         TaskOut.id out \<noteq> str_oid (ObjectId 255)"
proof -
  from create_task_contract[OF example_create_facts(1,2,3), of later_time]
  obtain out where o: "fst (create_task later_time example_create example_store) = Inr out"
    and c: "TaskOut.completed out = False"
    and t: "TaskOut.title out = TaskCreate.title example_create"
    and i: "TaskOut.id out = str_oid (ObjectId (next_oid example_store))"
    and f: "\<forall>n<next_oid example_store. TaskOut.id out \<noteq> str_oid (ObjectId n)"
    by blast
  have t': "TaskOut.title out = ''Buy milk''" using t by (simp add: example_create_def)
  have i': "TaskOut.id out = ''000000000000000000000100''"
    using i by (simp only: example_create_facts(4) example_new_id)
  have f': "TaskOut.id out \<noteq> str_oid (ObjectId 255)"
    using f[rule_format, of 255] by (simp only: example_create_facts(4)) simp
  from o c t' i' f' show ?thesis by (intro exI[of _ out] conjI)
qed

text \<open>
  C6. After a toggle that finds its document, after an update with a non-empty update
  set that matches a document, and after a create, the stored document has
  \<open>updated_at\<close> equal to the time the handler read from the clock.
\<close>

theorem mutations_set_updated_at:
  "(parse_oid task_id = Some oid \<and> find (has_id oid) (docs s) = Some d \<longrightarrow>
      (\<exists>d'. find (has_id oid) (docs (snd (toggle_task now task_id s))) = Some d' \<and>
            map_of d' ''updated_at'' = Some (VDateTime now))) \<and>
   (parse_oid task_id = Some oid \<and> find (has_id oid) (docs s) = Some d \<and>
    update_fields payload \<noteq> [] \<longrightarrow>
      (\<exists>d'. find (has_id oid) (docs (snd (update_task now task_id payload s))) = Some d' \<and>
            map_of d' ''updated_at'' = Some (VDateTime now))) \<and>
   (ids_issued s \<and> next_oid s < 2 ^ 96 \<longrightarrow>
      (\<exists>d'. docs (snd (create_task now new_task s)) = docs s @ [d'] \<and>
            find (has_id (ObjectId (next_oid s))) (docs (snd (create_task now new_task s))) =
              Some d' \<and>
            map_of d' ''updated_at'' = Some (VDateTime now)))"
proof (intro conjI impI)
  assume a: "parse_oid task_id = Some oid \<and> find (has_id oid) (docs s) = Some d"
  then have "find (has_id oid) (docs (snd (toggle_task now task_id s))) =
               Some (set_fields (toggle_set now d) d)"
    by (simp add: toggle_task_found(2))
  moreover have "map_of (set_fields (toggle_set now d) d) ''updated_at'' = Some (VDateTime now)"
    by (simp add: toggled_doc_map_of)
  ultimately show "\<exists>d'. find (has_id oid) (docs (snd (toggle_task now task_id s))) = Some d' \<and>
            map_of d' ''updated_at'' = Some (VDateTime now)"
    by blast
next
  assume a: "parse_oid task_id = Some oid \<and> find (has_id oid) (docs s) = Some d \<and>
    update_fields payload \<noteq> []"
  then have "find (has_id oid) (docs (snd (update_task now task_id payload s))) =
               Some (set_fields (update_set now payload) d)"
    by (simp add: update_task_stored(1))
  moreover have "map_of (set_fields (update_set now payload) d) ''updated_at'' =
                   Some (VDateTime now)"
    by (simp add: set_fields_map_of update_set_distinct update_set_map_of)
  ultimately show "\<exists>d'. find (has_id oid) (docs (snd (update_task now task_id payload s))) = Some d' \<and>
            map_of d' ''updated_at'' = Some (VDateTime now)"
    by blast
next
  assume a: "ids_issued s \<and> next_oid s < 2 ^ 96"
  then have i: "ids_issued s" and n: "next_oid s < 2 ^ 96" by simp_all
  from create_task_run(1,3)[OF i n, of now new_task] new_doc_facts(8)[of now new_task s]
  show "\<exists>d'. docs (snd (create_task now new_task s)) = docs s @ [d'] \<and>
            find (has_id (ObjectId (next_oid s))) (docs (snd (create_task now new_task s))) =
              Some d' \<and>
            map_of d' ''updated_at'' = Some (VDateTime now)"
    by blast
qed

theorem mutations_set_updated_at_witness:
  "(\<exists>d'. find (has_id (ObjectId 254))
           (docs (snd (toggle_task later_time ''0000000000000000000000fe'' example_store)))
           = Some d' \<and>
         map_of d' ''updated_at'' = Some (VDateTime later_time)) \<and>
   (\<exists>d'. find (has_id (ObjectId 254))
           (docs (snd (update_task later_time ''0000000000000000000000fe'' falsy_update
                         example_store))) = Some d' \<and>
         map_of d' ''updated_at'' = Some (VDateTime later_time)) \<and>
   (\<exists>d'. docs (snd (create_task later_time example_create example_store)) =
           docs example_store @ [d'] \<and>
         map_of d' ''updated_at'' = Some (VDateTime later_time))"
proof -
  have p: "parse_oid ''0000000000000000000000fe'' = Some (ObjectId 254)"
    by (rule example_ids)
  have f: "find (has_id (ObjectId 254)) (docs example_store) = Some done_doc"
    by (rule example_store_find)
  have u: "update_fields falsy_update \<noteq> []"
    by (simp add: update_fields_def model_dump_def falsy_update_def opt_def)
  note m = mutations_set_updated_at[where task_id = "''0000000000000000000000fe''"
      and oid = "ObjectId 254" and s = example_store and d = done_doc and now = later_time
      and payload = falsy_update and new_task = example_create]
  from m p f u example_create_facts(2,3) show ?thesis by blast
qed

section \<open>Properties of the diagnostics\<close>

text \<open>
  C9. For every state of \<open>db\<close> (absent, present with a \<open>name\<close> that raises, present
  with a listing that raises, present and working), every environment and every store,
  \<open>GET /test\<close> returns a response and no exception; the documents and the next
  identifier of the store are as before, and the only driver call it can add is the
  listing of collection names; the response lists at most ten collection names, the
  first ten when the listing works; an exception raised inside is reported as text under
  \<open>database\<close>, cut to fifty characters.
\<close>

theorem test_database_never_raises:
  "\<exists>r. fst (test_database getenv db s) = Inr r \<and>
        docs (snd (test_database getenv db s)) = docs s \<and>
        next_oid (snd (test_database getenv db s)) = next_oid s \<and>
        (\<exists>cs. map_of r ''collections'' = Some (VList cs) \<and> length cs \<le> 10) \<and>
        (case db of
           None \<Rightarrow>
             snd (test_database getenv db s) = s \<and>
             map_of r ''database'' =
               Some (VStr (warning_sign @ ''  Available but not initialized''))
         | Some d \<Rightarrow>
             (case database_name_of d of
                Inl e \<Rightarrow>
                  snd (test_database getenv db s) = s \<and>
                  map_of r ''database'' = Some (VStr (cross_mark @ '' Error: '' @ take 50 e))
              | Inr n \<Rightarrow>
                  snd (test_database getenv db s) = log_call ListCollectionNames s \<and>
                  (case listing d of
                     Inl e \<Rightarrow>
                       map_of r ''database'' =
                         Some (VStr (warning_sign @ ''  Connected but Error: '' @ take 50 e))
                   | Inr names \<Rightarrow>
                       map_of r ''database'' = Some (VStr (check_mark @ '' Connected & Working'')) \<and>
                       map_of r ''collections'' = Some (VList (map VStr (take 10 names))))))"
proof (cases db)
  case None
  then show ?thesis
    by (simp add: test_database_def try_body_def initial_response_def update_conv')
next
  case (Some d)
  show ?thesis
  proof (cases "database_name_of d")
    case (Inl e)
    with Some show ?thesis
      by (simp add: test_database_def try_body_def initial_response_def update_conv')
  next
    case (Inr n)
    show ?thesis
    proof (cases "listing d")
      case (Inl e)
      with Some Inr show ?thesis
        by (simp add: test_database_def try_body_def initial_response_def update_conv'
              list_collection_names_def log_call_def)
    next
      case names: (Inr names)
      with Some Inr show ?thesis
        by (simp add: test_database_def try_body_def initial_response_def update_conv'
              list_collection_names_def log_call_def)
    qed
  qed
qed

theorem test_database_never_raises_witness:
  "\<exists>r. fst (test_database no_env (Some healthy_db) example_store) = Inr r \<and>
        docs (snd (test_database no_env (Some healthy_db) example_store)) = docs example_store \<and>
        map_of r ''collections'' = Some (VList (map VStr (take 10 many_names)))"
proof -
  have n: "database_name_of healthy_db = Inr ''todo''"
    by (simp add: database_name_of_def healthy_db_def)
  have l: "listing healthy_db = Inr many_names"
    by (simp add: healthy_db_def)
  from test_database_never_raises[of no_env "Some healthy_db" example_store]
  show ?thesis by (simp add: n l) blast
qed

end
